theory Spec2Isabelle
  imports Complex_Main
begin

section \<open>Round state as the front end reads it (useRaffleState.ts)\<close>

text \<open>
  The hooks read the on-chain accounts through Anchor and convert every integer field
  with \<open>toNumber()\<close>; all timestamps are milliseconds since the epoch. The fields of
  \<open>RoundState\<close> hold integer-valued JavaScript numbers, modelled as \<open>int\<close>.
\<close>

record RoundState =
  roundId :: int
  epochInRound :: int
  startEpoch :: int
  endEpoch :: int
  stakeAccount :: string
  totalStakedLamports :: int
  totalPrizeLamports :: int
  totalTicketsSold :: int
  winner :: "string option"
  winningTicket :: int
  isComplete :: bool
  prizeClaimed :: bool
  vrfRequest :: "string option"
  bump :: int

section \<open>The automatic crank check (useAutoCrank.ts)\<close>

definition EPOCH_DURATION_SECONDS :: int where
  "EPOCH_DURATION_SECONDS = 120"

definition CHECK_INTERVAL_MS :: int where
  "CHECK_INTERVAL_MS = 5000"

text \<open>
  The local constants of \<open>checkAndCrank\<close>, as functions of the round state and of the
  clock reading \<open>now\<close> (\<open>currentTime\<close> in the source). \<open>Math.floor\<close> of the quotient of
  two integers is \<open>div\<close> on \<open>int\<close>, which rounds towards minus infinity as well.
\<close>

definition elapsedMs :: "RoundState \<Rightarrow> int \<Rightarrow> int" where
  "elapsedMs rs now = now - startEpoch rs"

definition epochsPassed :: "RoundState \<Rightarrow> int \<Rightarrow> int" where
  "epochsPassed rs now = elapsedMs rs now div (EPOCH_DURATION_SECONDS * 1000)"

definition expectedEpoch :: "RoundState \<Rightarrow> int \<Rightarrow> int" where
  "expectedEpoch rs now = min (epochsPassed rs now + 1) 3"

definition shouldAdvanceEpoch :: "RoundState \<Rightarrow> int \<Rightarrow> bool" where
  "shouldAdvanceEpoch rs now \<longleftrightarrow> expectedEpoch rs now > epochInRound rs"

definition epoch3EndTime :: "RoundState \<Rightarrow> int" where
  "epoch3EndTime rs = startEpoch rs + 3 * EPOCH_DURATION_SECONDS * 1000"

definition shouldFinalize :: "RoundState \<Rightarrow> int \<Rightarrow> bool" where
  "shouldFinalize rs now \<longleftrightarrow>
     epochInRound rs \<ge> 3 \<and> now \<ge> epoch3EndTime rs \<and> totalTicketsSold rs > 0"

text \<open>
  The mutable references of the hook (\<open>useRef\<close>) and the parts of its environment the
  check reads: whether \<open>program && publicKey\<close> holds, the \<open>isProcessing\<close> flag of the
  transaction hook, and whether the \<open>initRound\<close> call resolves or throws.
\<close>

record crankRefs =
  lastCrankAttempt :: int
  lastRoundInitAttempt :: int
  isInitializingRound :: bool

record crankEnv =
  walletReady :: bool
  isProcessing :: bool
  initRoundSucceeds :: bool

datatype crankAction =
    InitRound int int  \<comment> \<open>\<open>initRound(nextRoundId, randomSeed)\<close>\<close>
  | CallCrank          \<comment> \<open>\<open>callCrank()\<close>\<close>

text \<open>
  One run of \<open>checkAndCrank\<close>. \<open>now\<close> is the clock reading at entry and \<open>seedNow\<close> the
  later reading \<open>Date.now()\<close> that becomes \<open>randomSeed\<close>. The result is the references
  after the run and the calls it attempted. After a successful \<open>initRound\<close> the flag
  \<open>isInitializingRound\<close> stays set (a timer clears it two seconds later); the
  \<open>catch\<close> branch clears it at once.
\<close>

definition checkAndCrank ::
  "crankEnv \<Rightarrow> RoundState \<Rightarrow> int \<Rightarrow> int \<Rightarrow> crankRefs \<Rightarrow> crankRefs \<times> crankAction list" where
  "checkAndCrank env rs now seedNow refs =
    (if isComplete rs \<and> \<not> isInitializingRound refs then
       (if walletReady env \<and> now - lastRoundInitAttempt refs > 10000 then
          (refs\<lparr>isInitializingRound := initRoundSucceeds env, lastRoundInitAttempt := now\<rparr>,
           [InitRound (roundId rs + 1) seedNow])
        else (refs, []))
     else if now - lastCrankAttempt refs < 15000 then (refs, [])
     else if isProcessing env then (refs, [])
     else if shouldAdvanceEpoch rs now \<or> shouldFinalize rs now then
       (refs\<lparr>lastCrankAttempt := now\<rparr>, [CallCrank])
     else (refs, []))"

section \<open>JavaScript numbers\<close>

text \<open>
  A JavaScript number is an IEEE 754 binary64 value. The finite ones are modelled as
  rationals: an arithmetic operation computes the exact result and rounds it to the
  nearest value with a 53-bit significand, ties to the even significand. The exponent
  is not bounded here, so \<open>fl\<close> is the binary64 result whenever that result is a normal
  number (magnitude from \<open>2^-1022\<close> up to, not including, \<open>2^1024\<close>); every amount below
  is far inside that range. \<open>NaN\<close> and the infinities are not modelled.
\<close>

function bitlength :: "int \<Rightarrow> nat" where
  "bitlength k = (if k \<le> 0 then 0 else Suc (bitlength (k div 2)))"
  by pat_completeness auto
termination
  by (relation "measure nat") auto

declare bitlength.simps [simp del]

definition pow2 :: "int \<Rightarrow> rat" where
  "pow2 e = (if e \<ge> 0 then 2 ^ nat e else 1 / 2 ^ nat (- e))"

text \<open>\<open>binade x\<close> is the exponent \<open>k\<close> with \<open>2^k \<le> x < 2^(k+1)\<close>, for positive \<open>x\<close>.\<close>

definition binade :: "rat \<Rightarrow> int" where
  "binade x = (if x \<ge> 1 then int (bitlength \<lfloor>x\<rfloor>) - 1
               else - int (bitlength (\<lceil>1 / x\<rceil> - 1)))"

text \<open>Rounding to the nearest integer, ties to even.\<close>

definition rne :: "rat \<Rightarrow> int" where
  "rne x = (let f = \<lfloor>x\<rfloor>; d = x - of_int f in
     if d < 1 / 2 then f else if d > 1 / 2 then f + 1 else if even f then f else f + 1)"

definition fl :: "rat \<Rightarrow> rat" where
  "fl x = (if x = 0 then 0
           else let e = binade \<bar>x\<bar> - 52 in of_int (rne (x / pow2 e)) * pow2 e)"

definition js_mul :: "rat \<Rightarrow> rat \<Rightarrow> rat" where
  "js_mul a b = fl (a * b)"

definition js_div :: "rat \<Rightarrow> rat \<Rightarrow> rat" where
  "js_div a b = fl (a / b)"

text \<open>
  \<open>Math.floor\<close> and \<open>Math.round\<close> (ties towards plus infinity) are exact. The remainder
  operator \<open>%\<close> is exact as well and takes the sign of the dividend; it is only applied
  to integers here.
\<close>

definition Math_floor :: "rat \<Rightarrow> int" where
  "Math_floor x = \<lfloor>x\<rfloor>"

definition Math_round :: "rat \<Rightarrow> int" where
  "Math_round x = \<lfloor>x + 1 / 2\<rfloor>"

definition js_rem :: "int \<Rightarrow> int \<Rightarrow> int" where
  "js_rem a b = sgn a * (\<bar>a\<bar> mod \<bar>b\<bar>)"

section \<open>Big numbers (bn.js)\<close>

text \<open>
  The 64-bit fields of the on-chain accounts reach the front end as \<open>BN\<close> objects; such
  an object is modelled by its integer value. \<open>toNumber()\<close> throws (\<open>None\<close>) when the
  value does not fit 53 bits. \<open>new BN(x)\<close> of a number drops the fraction of \<open>x\<close> and
  fails its assertion (\<open>None\<close>) from \<open>2^53\<close> on.
\<close>

definition toNumber :: "int \<Rightarrow> int option" where
  "toNumber v = (if \<bar>v\<bar> < 2 ^ 53 then Some v else None)"

definition newBN :: "rat \<Rightarrow> int option" where
  "newBN x = (if \<bar>x\<bar> < 2 ^ 53 then Some (if x \<ge> 0 then \<lfloor>x\<rfloor> else \<lceil>x\<rceil>) else None)"

section \<open>Ticket pricing utilities (utils/tickets.ts)\<close>

text \<open>The literal \<open>0.01\<close> denotes the double nearest to one hundredth.\<close>

definition TICKET_PRICE_SOL :: rat where
  "TICKET_PRICE_SOL = fl (1 / 100)"

definition TICKET_PRICE_LAMPORTS :: int where
  "TICKET_PRICE_LAMPORTS = 10000000"

definition LAMPORTS_PER_SOL :: rat where
  "LAMPORTS_PER_SOL = 1000000000"

definition solToTickets :: "rat \<Rightarrow> int" where
  "solToTickets solAmount = Math_floor (js_div solAmount TICKET_PRICE_SOL)"

definition ticketsToSol :: "int \<Rightarrow> rat" where
  "ticketsToSol tickets = js_mul (of_int tickets) TICKET_PRICE_SOL"

definition lamportsToTickets :: "rat \<Rightarrow> int" where
  "lamportsToTickets lamports = Math_floor (js_div lamports (of_int TICKET_PRICE_LAMPORTS))"

definition ticketsToLamports :: "int \<Rightarrow> rat" where
  "ticketsToLamports tickets = js_mul (of_int tickets) (of_int TICKET_PRICE_LAMPORTS)"

definition isValidTicketAmount :: "rat \<Rightarrow> bool" where
  "isValidTicketAmount solAmount =
     (let lamports = Math_round (js_mul solAmount LAMPORTS_PER_SOL);
          remainder = js_rem lamports TICKET_PRICE_LAMPORTS
      in remainder = 0)"

definition getValidTicketAmount :: "rat \<Rightarrow> rat" where
  "getValidTicketAmount solAmount = ticketsToSol (solToTickets solAmount)"

definition getTicketCount :: "int \<Rightarrow> int \<Rightarrow> int" where
  "getTicketCount ticketStart ticketEnd = ticketEnd - ticketStart + 1"

definition hasTickets :: "int \<Rightarrow> int \<Rightarrow> bool" where
  "hasTickets ticketStart ticketEnd \<longleftrightarrow> ticketStart \<ge> 0 \<and> ticketEnd \<ge> ticketStart"

section \<open>Participant records and the on-chain program\<close>

text \<open>
  \<open>UserAccount\<close> is the front end's view of a participant record (useRaffleState.ts),
  one per identity and reused across rounds. Its \<open>bump\<close> field is named \<open>userBump\<close> here,
  apart from the one of \<open>RoundState\<close>.
\<close>

record UserAccount =
  owner :: string
  balance :: int
  ticketStart :: int
  ticketEnd :: int
  snapshotBalances :: "int list"
  snapshotsRecordedMask :: int
  roundJoined :: int
  pendingWithdrawalAmount :: int
  pendingWithdrawalRound :: int
  userBump :: int

text \<open>
  The Rust source of the on-chain program is not among the repository files at hand:
  the front end and the scripts only submit its instructions. The definitions of this
  section follow the spec (sections 3, 4.1, 4.3, 4.4 and 7) instead.
\<close>

text \<open>
  Modelled from the spec: the error taxonomy of section 7, as far as deposits and the
  crank raise it; \<open>SelectionFailed\<close> is the failure of winner selection on an incomplete
  batch (section 4.4), which the spec leaves unnamed.
\<close>

datatype error =
    InvalidAmount | InvalidTicketAmount | ArithmeticOverflow
  | DepositsClosedEpoch3 | RoundComplete | RoundNotComplete
  | SelectionFailed

text \<open>
  Modelled from the spec: the winning ticket of the winner selector, section 4.4,
  \<open>winningTicket = seed mod ticketCount\<close>.
\<close>

definition winningTicketOf :: "int \<Rightarrow> int \<Rightarrow> int" where
  "winningTicketOf seed ticketCount = seed mod ticketCount"

text \<open>
  Modelled from the spec: the scan of the supplied batch for the record whose
  \<open>[start, end]\<close> contains the winning ticket, section 4.4.
\<close>

fun scanBatch :: "int \<Rightarrow> UserAccount list \<Rightarrow> string option" where
  "scanBatch w [] = None"
| "scanBatch w (p # ps) =
     (if ticketStart p \<le> w \<and> w \<le> ticketEnd p then Some (owner p) else scanBatch w ps)"

text \<open>
  Modelled from the spec: \<open>select(seed, ticketCount, ledgerBatch)\<close> of section 4.4, which
  returns the identity found by the scan and fails when no record of the batch owns
  the winning ticket.
\<close>

definition select :: "int \<Rightarrow> int \<Rightarrow> UserAccount list \<Rightarrow> error + string" where
  "select seed ticketCount ledgerBatch =
     (case scanBatch (winningTicketOf seed ticketCount) ledgerBatch of
        None \<Rightarrow> Inl SelectionFailed
      | Some identity \<Rightarrow> Inr identity)"

text \<open>
  Modelled from the spec: the target epoch of the crank, section 4.3, with the epoch
  duration \<open>d\<close> in the unit of the timestamps:
  \<open>targetEpoch = min(floor(elapsed / epochDuration) + 1, 3)\<close>.
\<close>

definition targetEpoch :: "int \<Rightarrow> RoundState \<Rightarrow> int \<Rightarrow> int" where
  "targetEpoch d r now = min ((now - startEpoch r) div d + 1) 3"

text \<open>
  Modelled from the spec: the epoch advance of the crank, section 4.3:
  \<open>if targetEpoch > round.epochInRound: round.epochInRound = targetEpoch\<close>.
\<close>

definition advance :: "int \<Rightarrow> int \<Rightarrow> RoundState \<Rightarrow> RoundState" where
  "advance d now r =
     (if targetEpoch d r now > epochInRound r then r\<lparr>epochInRound := targetEpoch d r now\<rparr> else r)"

text \<open>
  Modelled from the spec: the condition under which the crank finalizes, section 4.3:
  epoch at least 3, \<open>now \<ge> startEpoch + 3 * epochDuration\<close>, a ticket sold and the round
  not complete.
\<close>

definition finalizeDue :: "int \<Rightarrow> int \<Rightarrow> RoundState \<Rightarrow> bool" where
  "finalizeDue d now r \<longleftrightarrow>
     epochInRound r \<ge> 3 \<and> now \<ge> startEpoch r + 3 * d \<and> totalTicketsSold r > 0 \<and> \<not> isComplete r"

text \<open>
  Modelled from the spec: finalization, section 4.3, which invokes the winner selector
  and sets winner, winning ticket, completion flag and end timestamp.
\<close>

definition finalize :: "int \<Rightarrow> int \<Rightarrow> UserAccount list \<Rightarrow> RoundState \<Rightarrow> error + RoundState" where
  "finalize now seed batch r =
     (case select seed (totalTicketsSold r) batch of
        Inl e \<Rightarrow> Inl e
      | Inr identity \<Rightarrow>
          Inr (r\<lparr>winner := Some identity,
                 winningTicket := winningTicketOf seed (totalTicketsSold r),
                 isComplete := True,
                 endEpoch := now\<rparr>))"

text \<open>
  Modelled from the spec: the crank, section 4.3: advance the epoch, then finalize if
  due. An error leaves the round as it was (section 7: every entry point is
  all-or-nothing).
\<close>

definition crank :: "int \<Rightarrow> int \<Rightarrow> int \<Rightarrow> UserAccount list \<Rightarrow> RoundState \<Rightarrow> error + RoundState" where
  "crank d now seed batch r =
     (let r1 = advance d now r in
      if finalizeDue d now r1 then finalize now seed batch r1 else Inr r1)"

text \<open>
  Modelled from the spec: a sequence of crank calls, each with its own clock reading,
  seed and batch; a call that fails leaves the round unchanged (section 7).
\<close>

fun crankCalls :: "int \<Rightarrow> (int \<times> int \<times> UserAccount list) list \<Rightarrow> RoundState \<Rightarrow> RoundState" where
  "crankCalls d [] r = r"
| "crankCalls d ((now, seed, batch) # cs) r =
     crankCalls d cs (case crank d now seed batch r of Inl e \<Rightarrow> r | Inr r' \<Rightarrow> r')"

text \<open>
  Modelled from the spec: the bound of the overflow-checked ticket counter of section
  4.1, an unsigned 64-bit integer.
\<close>

definition U64_MAX :: int where
  "U64_MAX = 2 ^ 64 - 1"

text \<open>
  Modelled from the spec: round creation, section 4.3. A new round starts in epoch 1 at
  \<open>startEpoch = now\<close>, with no ticket sold and not complete.
\<close>

definition newRound :: "int \<Rightarrow> int \<Rightarrow> string \<Rightarrow> int \<Rightarrow> RoundState" where
  "newRound rid now stake prize =
     \<lparr>roundId = rid, epochInRound = 1, startEpoch = now, endEpoch = 0, stakeAccount = stake,
      totalStakedLamports = 0, totalPrizeLamports = prize, totalTicketsSold = 0,
      winner = None, winningTicket = 0, isComplete = False, prizeClaimed = False,
      vrfRequest = None, bump = 0\<rparr>"

text \<open>
  Modelled from the spec: the participant record after a deposit, section 4.1: created
  if absent, else balance and ticket range updated and \<open>roundJoined\<close> reset to the
  current round.
\<close>

definition recordDeposit ::
  "string \<Rightarrow> int \<Rightarrow> int \<Rightarrow> int \<Rightarrow> int \<Rightarrow> UserAccount option \<Rightarrow> UserAccount" where
  "recordDeposit identity amount start numTickets rid rec =
     (case rec of
        None \<Rightarrow>
          \<lparr>owner = identity, balance = amount, ticketStart = start,
           ticketEnd = start + numTickets - 1, snapshotBalances = [0, 0, 0],
           snapshotsRecordedMask = 0, roundJoined = rid, pendingWithdrawalAmount = 0,
           pendingWithdrawalRound = 0, userBump = 0\<rparr>
      | Some u \<Rightarrow>
          u\<lparr>balance := balance u + amount, ticketStart := start,
            ticketEnd := start + numTickets - 1, roundJoined := rid\<rparr>)"

text \<open>
  Modelled from the spec: the deposit of the ticket ledger, sections 4.1 and 4.3, in
  lamports. It rejects a non-positive amount or one that is not an exact multiple of
  the ticket price, runs the crank as its pre-check, rejects once the round is complete
  or in epoch 3, and otherwise assigns the range
  \<open>[ticketsSold, ticketsSold + numTickets - 1]\<close>, adding to \<open>totalTicketsSold\<close> with an
  overflow check and to the total staked.
\<close>

definition depositOnChain ::
  "int \<Rightarrow> int \<Rightarrow> int \<Rightarrow> UserAccount list \<Rightarrow> string \<Rightarrow> int \<Rightarrow> RoundState \<Rightarrow> UserAccount option
     \<Rightarrow> error + RoundState \<times> UserAccount" where
  "depositOnChain d now seed batch identity amount r rec =
     (if amount \<le> 0 \<or> amount mod TICKET_PRICE_LAMPORTS \<noteq> 0 then Inl InvalidTicketAmount
      else case crank d now seed batch r of
        Inl e \<Rightarrow> Inl e
      | Inr r1 \<Rightarrow>
          if isComplete r1 then Inl RoundComplete
          else if epochInRound r1 = 3 then Inl DepositsClosedEpoch3
          else
            let numTickets = amount div TICKET_PRICE_LAMPORTS;
                start = totalTicketsSold r1
            in if start + numTickets > U64_MAX then Inl ArithmeticOverflow
               else Inr (r1\<lparr>totalTicketsSold := start + numTickets,
                            totalStakedLamports := totalStakedLamports r1 + amount\<rparr>,
                         recordDeposit identity amount start numTickets (roundId r1) rec))"

text \<open>
  Modelled from the spec: the round states that round creation, cranks and deposits can
  produce, for an epoch duration \<open>d\<close>; every call may come at any time, with any seed
  and any batch.
\<close>

inductive reachable :: "int \<Rightarrow> RoundState \<Rightarrow> bool" for d :: int where
  created: "reachable d (newRound rid now stake prize)"
| cranked: "reachable d r \<Longrightarrow> crank d now seed batch r = Inr r' \<Longrightarrow> reachable d r'"
| deposited:
    "reachable d r \<Longrightarrow> depositOnChain d now seed batch identity amount r rec = Inr (r', u)
       \<Longrightarrow> reachable d r'"

section \<open>The deposit transaction hook (useRaffleTransactions.ts)\<close>

text \<open>
  What the hook can return as \<open>error\<close>. The constructors stand for the message texts of
  the source: \<open>'Wallet not connected or program not ready'\<close>, \<open>'Amount must be greater
  than 0'\<close>, the whole-tickets message with its suggested amount
  \<open>Math.floor(solToTickets(amountSOL)) * TICKET_PRICE_SOL\<close>, the two fixed messages for an
  \<open>InvalidTicketAmount\<close> error found in the thrown message or in the transaction logs,
  the thrown error's own message, and the default \<open>'Transaction failed'\<close>.
\<close>

datatype depositMessage =
    WalletNotConnected
  | AmountNotPositive
  | WholeTicketsOnly rat
  | InvalidTicketAmountMessage
  | InvalidTicketAmountLogs
  | ErrMessage string
  | TransactionFailed

record thrownError =
  message :: "string option"
  logs :: "string list option"

text \<open>
  Once the amount is built, the \<open>try\<close> block either throws before the transaction is
  sent (fetching the protocol state), throws after \<open>rpc()\<close> was called, or returns the
  confirmed signature.
\<close>

datatype rpcOutcome =
    ThrowsBeforeSend thrownError
  | ThrowsAfterSend thrownError
  | Confirmed string

record depositEnv =
  ready :: bool  \<comment> \<open>\<open>program && isReady && publicKey\<close>\<close>
  outcome :: rpcOutcome

record txState =
  txProcessing :: bool
  txError :: "depositMessage option"
  lastTxSignature :: "string option"

text \<open>
  A submitted deposit instruction; its argument is \<open>amountLamports\<close>, the value of
  \<open>new BN(amountSOL * LAMPORTS_PER_SOL)\<close>. When that constructor fails, the \<open>catch\<close>
  block receives its assertion error.
\<close>

datatype depositTx = DepositTx int

definition assertionFailed :: thrownError where
  "assertionFailed = \<lparr>message = Some ''Assertion failed'', logs = None\<rparr>"

fun startsWith :: "string \<Rightarrow> string \<Rightarrow> bool" where
  "startsWith s sub \<longleftrightarrow> take (length sub) s = sub"

fun includesStr :: "string \<Rightarrow> string \<Rightarrow> bool" where
  "includesStr [] sub \<longleftrightarrow> sub = []"
| "includesStr (c # cs) sub \<longleftrightarrow> startsWith (c # cs) sub \<or> includesStr cs sub"

fun joinWith :: "string \<Rightarrow> string list \<Rightarrow> string" where
  "joinWith sep [] = []"
| "joinWith sep [x] = x"
| "joinWith sep (x # y # zs) = x @ sep @ joinWith sep (y # zs)"

definition depositCatch :: "thrownError \<Rightarrow> depositMessage" where
  "depositCatch err =
     (let errorMessage =
        (case message err of
           None \<Rightarrow> TransactionFailed
         | Some m \<Rightarrow>
             if m \<noteq> [] \<and> includesStr m ''InvalidTicketAmount'' then InvalidTicketAmountMessage
             else if m \<noteq> [] then ErrMessage m
             else TransactionFailed)
      in case logs err of
           None \<Rightarrow> errorMessage
         | Some ls \<Rightarrow>
             if includesStr (joinWith '' '' ls) ''InvalidTicketAmount'' then InvalidTicketAmountLogs
             else errorMessage)"

text \<open>
  \<open>deposit(amountSOL)\<close>: the result (\<open>Inl\<close> the error of \<open>{success: false, error}\<close>, \<open>Inr\<close>
  the signature of \<open>{success: true, signature}\<close>), the transactions it submitted and
  the hook state after the call.
\<close>

definition deposit ::
  "depositEnv \<Rightarrow> rat \<Rightarrow> txState \<Rightarrow> (depositMessage + string) \<times> depositTx list \<times> txState" where
  "deposit env amountSOL st =
     (if \<not> ready env then
        (Inl WalletNotConnected, [], st\<lparr>txError := Some WalletNotConnected\<rparr>)
      else if amountSOL \<le> 0 then
        (Inl AmountNotPositive, [], st\<lparr>txError := Some AmountNotPositive\<rparr>)
      else if \<not> isValidTicketAmount amountSOL then
        (let errorMsg = WholeTicketsOnly
               (js_mul (of_int (Math_floor (of_int (solToTickets amountSOL)))) TICKET_PRICE_SOL)
         in (Inl errorMsg, [], st\<lparr>txError := Some errorMsg\<rparr>))
      else
        (case newBN (js_mul amountSOL LAMPORTS_PER_SOL) of
           None \<Rightarrow>
             (Inl (depositCatch assertionFailed), [],
              st\<lparr>txError := Some (depositCatch assertionFailed), txProcessing := False\<rparr>)
         | Some amountLamports \<Rightarrow>
             (let tx = DepositTx amountLamports in
              case outcome env of
                ThrowsBeforeSend err \<Rightarrow>
                  (Inl (depositCatch err), [],
                   st\<lparr>txError := Some (depositCatch err), txProcessing := False\<rparr>)
              | ThrowsAfterSend err \<Rightarrow>
                  (Inl (depositCatch err), [tx],
                   st\<lparr>txError := Some (depositCatch err), txProcessing := False\<rparr>)
              | Confirmed sig \<Rightarrow>
                  (Inr sig, [tx],
                   st\<lparr>txError := None, lastTxSignature := Some sig,
                     txProcessing := False\<rparr>))))"

section \<open>The ticket purchase screen (StakingRaffle.tsx)\<close>

datatype EpochStatus = Active | Ended | Completed

definition currentEpochInRound :: "RoundState option \<Rightarrow> int" where
  "currentEpochInRound roundState = (case roundState of None \<Rightarrow> 0 | Some r \<Rightarrow> epochInRound r)"

definition roundIsComplete :: "RoundState option \<Rightarrow> bool" where
  "roundIsComplete roundState = (case roundState of None \<Rightarrow> False | Some r \<Rightarrow> isComplete r)"

definition epochStatus :: "RoundState option \<Rightarrow> EpochStatus" where
  "epochStatus roundState =
     (if roundIsComplete roundState then Completed
      else if currentEpochInRound roundState \<ge> 3 then Ended
      else Active)"

definition canDeposit :: "RoundState option \<Rightarrow> bool" where
  "canDeposit roundState \<longleftrightarrow>
     currentEpochInRound roundState < 3 \<and> epochStatus roundState = Active
     \<and> \<not> roundIsComplete roundState"

text \<open>
  The alerts of the screen: \<open>'Deposits are closed. Please wait for the next round!'\<close>,
  \<open>'Please connect your wallet first'\<close>, and \<open>'Transaction failed: '\<close> followed by the
  error of the deposit result. \<open>alertText\<close> gives the fixed text each alert starts with.
\<close>

datatype alert =
    DepositsClosed
  | ConnectWallet
  | TransactionFailedAlert depositMessage

fun alertText :: "alert \<Rightarrow> string" where
  "alertText DepositsClosed = ''Deposits are closed. Please wait for the next round!''"
| "alertText ConnectWallet = ''Please connect your wallet first''"
| "alertText (TransactionFailedAlert e) = ''Transaction failed: ''"

datatype uiEffect = Alert alert | Submitted depositTx

record raffleUi =
  ticketsToBuy :: int
  showConfirmation :: bool
  showSuccess :: bool
  purchasedTicketNumbers :: "(int \<times> int) option"

record uiEnv =
  connected :: bool
  uiProcessing :: bool  \<comment> \<open>\<open>isProcessing\<close> of the transaction hook\<close>
  depositEnvOf :: depositEnv
  txStateOf :: txState

definition handleTicketsChange :: "int option \<Rightarrow> raffleUi \<Rightarrow> raffleUi" where
  "handleTicketsChange parsed ui =
     (let num = (case parsed of None \<Rightarrow> 0 | Some n \<Rightarrow> n) in
      if num \<ge> 0 \<and> num \<le> 9999 then ui\<lparr>ticketsToBuy := num\<rparr> else ui)"

text \<open>The first and last ticket number \<open>getNextTicketNumbers\<close> displays.\<close>

definition getNextTicketNumbers :: "RoundState option \<Rightarrow> raffleUi \<Rightarrow> int \<times> int" where
  "getNextTicketNumbers roundState ui =
     (let sold = (case roundState of None \<Rightarrow> 0 | Some r \<Rightarrow> totalTicketsSold r)
      in (sold, sold + ticketsToBuy ui - 1))"

definition handleBuyClick :: "RoundState option \<Rightarrow> raffleUi \<Rightarrow> raffleUi \<times> uiEffect list" where
  "handleBuyClick roundState ui =
     (if \<not> canDeposit roundState then (ui, [Alert DepositsClosed])
      else (ui\<lparr>showConfirmation := True\<rparr>, []))"

definition handleConfirmPurchase ::
  "uiEnv \<Rightarrow> RoundState option \<Rightarrow> raffleUi \<Rightarrow> raffleUi \<times> uiEffect list" where
  "handleConfirmPurchase env roundState ui =
     (let ui1 = ui\<lparr>showConfirmation := False\<rparr> in
      if \<not> connected env then (ui1, [Alert ConnectWallet])
      else
        let ui2 = ui1\<lparr>purchasedTicketNumbers := Some (getNextTicketNumbers roundState ui1)\<rparr>;
            solAmount = js_mul (of_int (ticketsToBuy ui2)) (fl (1 / 100))
        in case deposit (depositEnvOf env) solAmount (txStateOf env) of
             (Inr sig, txs, st) \<Rightarrow> (ui2\<lparr>showSuccess := True\<rparr>, map Submitted txs)
           | (Inl e, txs, st) \<Rightarrow> (ui2, map Submitted txs @ [Alert (TransactionFailedAlert e)]))"

definition handleCancelPurchase :: "raffleUi \<Rightarrow> raffleUi" where
  "handleCancelPurchase ui = ui\<lparr>showConfirmation := False\<rparr>"

definition handleCloseSuccess :: "raffleUi \<Rightarrow> raffleUi" where
  "handleCloseSuccess ui = ui\<lparr>showSuccess := False, ticketsToBuy := 1\<rparr>"

text \<open>
  The purchase panel with the buy button is rendered unless the status is \<open>Completed\<close>
  (the results screen takes its place); the button can be disabled. The confirmation
  dialog with its two buttons is rendered while \<open>showConfirmation\<close> holds, whatever the
  status. A click on a disabled or absent button reaches no handler.
\<close>

definition buyButtonRendered :: "RoundState option \<Rightarrow> bool" where
  "buyButtonRendered roundState \<longleftrightarrow> epochStatus roundState \<noteq> Completed"

definition buyButtonDisabled :: "uiEnv \<Rightarrow> RoundState option \<Rightarrow> raffleUi \<Rightarrow> bool" where
  "buyButtonDisabled env roundState ui \<longleftrightarrow>
     \<not> connected env \<or> ticketsToBuy ui = 0 \<or> \<not> canDeposit roundState \<or> uiProcessing env"

text \<open>
  The labels of the buy button: \<open>'CONNECT WALLET'\<close>, \<open>'PROCESSING...'\<close>,
  \<open>'DEPOSITS CLOSED (EPOCH 3)'\<close>, \<open>'ROUND CLOSED'\<close>, and \<open>'BUY n TICKETS'\<close> with the number
  of tickets to buy.
\<close>

datatype buyLabel =
    ConnectWalletLabel | ProcessingLabel | DepositsClosedEpoch3Label | RoundClosedLabel
  | BuyTicketsLabel int

definition buyButtonLabel :: "uiEnv \<Rightarrow> RoundState option \<Rightarrow> raffleUi \<Rightarrow> buyLabel" where
  "buyButtonLabel env roundState ui =
     (if \<not> connected env then ConnectWalletLabel
      else if uiProcessing env then ProcessingLabel
      else if \<not> canDeposit roundState then
        (if currentEpochInRound roundState \<ge> 3 then DepositsClosedEpoch3Label
         else RoundClosedLabel)
      else BuyTicketsLabel (ticketsToBuy ui))"

datatype uiEvent = ClickBuy | ClickConfirm | ClickCancel | ClickCloseSuccess | ChangeTickets "int option"

definition uiStep ::
  "RoundState option \<Rightarrow> uiEnv \<times> uiEvent \<Rightarrow> raffleUi \<Rightarrow> raffleUi \<times> uiEffect list" where
  "uiStep roundState ev ui =
     (case ev of
        (env, ClickBuy) \<Rightarrow>
          if \<not> buyButtonRendered roundState \<or> buyButtonDisabled env roundState ui then (ui, [])
          else handleBuyClick roundState ui
      | (env, ClickConfirm) \<Rightarrow>
          if showConfirmation ui then handleConfirmPurchase env roundState ui else (ui, [])
      | (env, ClickCancel) \<Rightarrow>
          if showConfirmation ui then (handleCancelPurchase ui, []) else (ui, [])
      | (env, ClickCloseSuccess) \<Rightarrow>
          if showSuccess ui then (handleCloseSuccess ui, []) else (ui, [])
      | (env, ChangeTickets v) \<Rightarrow> (handleTicketsChange v ui, []))"

text \<open>
  A run of the screen over a list of events, each with the round state and the
  environment of the rendering it arrives in; the effects are collected in order.
\<close>

fun uiRun ::
  "(RoundState option \<times> uiEnv \<times> uiEvent) list \<Rightarrow> raffleUi \<Rightarrow> raffleUi \<times> uiEffect list" where
  "uiRun [] ui = (ui, [])"
| "uiRun ((roundState, ev) # evs) ui =
     (case uiStep roundState ev ui of
        (ui1, effs) \<Rightarrow> (case uiRun evs ui1 of (ui2, effs') \<Rightarrow> (ui2, effs @ effs')))"

section \<open>Admin functions and the crank call (useAdminFunctions.ts, useRaffleTransactions.ts)\<close>

text \<open>
  The accounts \<open>program.account.userAccount.all()\<close> returns, each with its address; the
  numeric fields of a fetched account are \<open>BN\<close> values. The admin functions, the crank
  call and the snapshot select the participants of a round by \<open>roundJoined\<close> alone:
  \<open>allAccounts.filter((acc) => acc.account.roundJoined.toNumber() === currentRound)\<close>.
  The filter converts \<open>roundJoined\<close> of every account; the result is \<open>None\<close> when one of
  the conversions throws.
\<close>

type_synonym fetchedAccounts = "(string \<times> UserAccount) list"

fun filterRoundJoined :: "fetchedAccounts \<Rightarrow> int \<Rightarrow> fetchedAccounts option" where
  "filterRoundJoined [] currentRound = Some []"
| "filterRoundJoined (acc # rest) currentRound =
     (case toNumber (roundJoined (snd acc)) of
        None \<Rightarrow> None
      | Some joined \<Rightarrow>
          (case filterRoundJoined rest currentRound of
             None \<Rightarrow> None
           | Some kept \<Rightarrow> Some (if joined = currentRound then acc # kept else kept)))"

definition participatingAccounts :: "fetchedAccounts \<Rightarrow> int \<Rightarrow> string list option" where
  "participatingAccounts allAccounts currentRound =
     map_option (map fst) (filterRoundJoined allAccounts currentRound)"

datatype programCall =
    InitRoundCall int int                 \<comment> \<open>\<open>initRound(roundId, randomSeed)\<close>\<close>
  | SelectWinnerLocalCall int "string list"  \<comment> \<open>\<open>selectWinnerLocal(seed)\<close> with its remaining accounts\<close>
  | CrankCall "string list"               \<comment> \<open>\<open>crank()\<close> with its remaining accounts\<close>

text \<open>
  The call each function submits, if any. \<open>dateNow\<close> is the reading of \<open>Date.now()\<close> the
  function takes; \<open>chain\<close> is the current round number and the user accounts it fetches,
  \<open>None\<close> when a fetch or the conversion of the round number throws. Nothing is
  submitted when the filter throws.
\<close>

definition initializeRound :: "bool \<Rightarrow> int \<Rightarrow> int \<Rightarrow> programCall option" where
  "initializeRound programReady dateNow rid =
     (if \<not> programReady then None else Some (InitRoundCall rid dateNow))"

definition selectWinner :: "bool \<Rightarrow> int \<Rightarrow> (int \<times> fetchedAccounts) option \<Rightarrow> programCall option" where
  "selectWinner programReady dateNow chain =
     (if \<not> programReady then None
      else case chain of
        None \<Rightarrow> None
      | Some (currentRound, allAccounts) \<Rightarrow>
          map_option (SelectWinnerLocalCall dateNow)
            (participatingAccounts allAccounts currentRound))"

definition callCrank :: "bool \<Rightarrow> (int \<times> fetchedAccounts) option \<Rightarrow> programCall option" where
  "callCrank programReady chain =
     (if \<not> programReady then None
      else case chain of
        None \<Rightarrow> None
      | Some (currentRoundId, allAccounts) \<Rightarrow>
          map_option CrankCall (participatingAccounts allAccounts currentRoundId))"

fun seedOf :: "programCall \<Rightarrow> int option" where
  "seedOf (InitRoundCall rid randomSeed) = Some randomSeed"
| "seedOf (SelectWinnerLocalCall seed accounts) = Some seed"
| "seedOf (CrankCall accounts) = None"

section \<open>Pending prizes (useRaffleState.ts, config/solana.ts)\<close>

text \<open>
  A claim ticket account as fetched; its \<open>roundId\<close>, \<open>prizeAmount\<close> and \<open>stakeAmount\<close> are
  \<open>BN\<close> values. The same record holds the entry of the list, whose numbers are the
  converted values.
\<close>

record ClaimTicket =
  claimRoundId :: int
  claimWinner :: string
  prizeAmount :: int
  stakeAmount :: int
  claimed :: bool
  claimBump :: int

text \<open>
  \<open>getClaimTicketPDA(roundId, winnerPubkey)\<close> derives the address of a claim ticket from
  the seeds \<open>'claim'\<close>, the round number as 8 bytes and the winner's key; an address is
  identified with these seeds. \<open>store a\<close> is what fetching the account at the address
  \<open>a\<close> returns, \<open>None\<close> when the fetch throws because no such account exists.
\<close>

type_synonym claimTicketAddress = "int \<times> string"

type_synonym claimStore = "claimTicketAddress \<Rightarrow> ClaimTicket option"

definition getClaimTicketPDA :: "int \<Rightarrow> string \<Rightarrow> claimTicketAddress" where
  "getClaimTicketPDA rid winnerPubkey = (rid, winnerPubkey)"

text \<open>
  The entry pushed for a fetched ticket; \<open>None\<close> when one of the three conversions
  throws.
\<close>

definition claimTicketEntry :: "ClaimTicket \<Rightarrow> ClaimTicket option" where
  "claimTicketEntry claimTicket =
     (case toNumber (claimRoundId claimTicket) of
        None \<Rightarrow> None
      | Some rid \<Rightarrow>
          (case toNumber (prizeAmount claimTicket) of
             None \<Rightarrow> None
           | Some prize \<Rightarrow>
               (case toNumber (stakeAmount claimTicket) of
                  None \<Rightarrow> None
                | Some stake \<Rightarrow>
                    Some \<lparr>claimRoundId = rid, claimWinner = claimWinner claimTicket,
                      prizeAmount = prize, stakeAmount = stake, claimed = claimed claimTicket,
                      claimBump = claimBump claimTicket\<rparr>)))"

text \<open>
  The loop over the recent rounds. The body runs in a \<open>try\<close> whose \<open>catch\<close> is empty: a
  ticket that cannot be fetched or converted is skipped.
\<close>

function claimTicketLoop ::
  "claimStore \<Rightarrow> string \<Rightarrow> int \<Rightarrow> int \<Rightarrow> ClaimTicket list \<Rightarrow> ClaimTicket list" where
  "claimTicketLoop store pk i currentRoundId tickets =
     (if i \<le> currentRoundId then
        claimTicketLoop store pk (i + 1) currentRoundId
          (case store (getClaimTicketPDA i pk) of
             None \<Rightarrow> tickets
           | Some claimTicket \<Rightarrow>
               if \<not> claimed claimTicket then
                 (case claimTicketEntry claimTicket of
                    None \<Rightarrow> tickets
                  | Some entry \<Rightarrow> tickets @ [entry])
               else tickets)
      else tickets)"
  by pat_completeness auto
termination
  by (relation "measure (\<lambda>(store, pk, i, currentRoundId, tickets). nat (currentRoundId + 1 - i))")
    auto

declare claimTicketLoop.simps [simp del]

text \<open>
  The list \<open>fetchState\<close> leaves in \<open>claimTickets\<close>. The call returns before it touches the
  list when the program is not ready or the protocol state cannot be fetched or
  converted; \<open>protocol\<close> is the current round number of the fetched protocol state.
\<close>

definition fetchClaimTickets ::
  "bool \<Rightarrow> claimStore \<Rightarrow> string option \<Rightarrow> int option \<Rightarrow> ClaimTicket list \<Rightarrow> ClaimTicket list" where
  "fetchClaimTickets programReady store publicKey protocol previous =
     (if \<not> programReady then previous
      else case protocol of
        None \<Rightarrow> previous
      | Some currentRoundId \<Rightarrow>
          (case publicKey of
             None \<Rightarrow> []
           | Some pk \<Rightarrow> claimTicketLoop store pk (max 1 (currentRoundId - 10)) currentRoundId []))"

text \<open>
  The program creates the claim ticket of a round at the address derived from that
  round and stores the round number in it; a store is consistent for a key when every
  ticket found at an address of that key carries the round number of the address.
\<close>

definition pdaConsistent :: "claimStore \<Rightarrow> string \<Rightarrow> bool" where
  "pdaConsistent store pk \<longleftrightarrow>
     (\<forall>i t. store (getClaimTicketPDA i pk) = Some t \<longrightarrow> claimRoundId t = i)"

section \<open>Participants of a round (useParticipantCount.ts, utils/get_participants.ts)\<close>

record ParticipantInfo =
  pubkey :: string
  infoOwner :: string
  infoBalance :: int
  infoTicketStart :: int
  infoTicketEnd :: int
  infoRoundJoined :: int

text \<open>
  The loop of \<open>getParticipants\<close> converts \<open>roundJoined\<close> and \<open>balance\<close> of every account and
  the ticket range of the accounts it keeps; the result is \<open>None\<close> when a conversion
  throws.
\<close>

fun participantsLoop ::
  "fetchedAccounts \<Rightarrow> int \<Rightarrow> ParticipantInfo list \<Rightarrow> ParticipantInfo list option" where
  "participantsLoop [] rid participants = Some participants"
| "participantsLoop (account # rest) rid participants =
     (case toNumber (roundJoined (snd account)) of
        None \<Rightarrow> None
      | Some joined \<Rightarrow>
          (case toNumber (balance (snd account)) of
             None \<Rightarrow> None
           | Some bal \<Rightarrow>
               if joined = rid \<and> bal > 0 then
                 (case toNumber (ticketStart (snd account)) of
                    None \<Rightarrow> None
                  | Some tStart \<Rightarrow>
                      (case toNumber (ticketEnd (snd account)) of
                         None \<Rightarrow> None
                       | Some tEnd \<Rightarrow>
                           participantsLoop rest rid
                             (participants @
                                [\<lparr>pubkey = fst account, infoOwner = owner (snd account),
                                  infoBalance = bal, infoTicketStart = tStart,
                                  infoTicketEnd = tEnd, infoRoundJoined = joined\<rparr>])))
               else participantsLoop rest rid participants))"

text \<open>
  \<open>fetched\<close> is \<open>None\<close> when fetching the accounts throws. The \<open>catch\<close> block of
  \<open>getParticipants\<close> returns the empty list, that of the hook sets the count to 0.
\<close>

definition getParticipants :: "fetchedAccounts option \<Rightarrow> int \<Rightarrow> ParticipantInfo list" where
  "getParticipants fetched rid =
     (case fetched of
        None \<Rightarrow> []
      | Some userAccounts \<Rightarrow>
          (case participantsLoop userAccounts rid [] of
             None \<Rightarrow> []
           | Some participants \<Rightarrow> participants))"

definition getParticipantCount :: "fetchedAccounts option \<Rightarrow> int \<Rightarrow> nat" where
  "getParticipantCount fetched rid = length (getParticipants fetched rid)"

text \<open>
  The filter of the hook, \<open>roundJoined.toNumber() === roundId && balance.toNumber() > 0\<close>:
  the balance is only converted when the round matches.
\<close>

fun filterParticipants :: "fetchedAccounts \<Rightarrow> int \<Rightarrow> fetchedAccounts option" where
  "filterParticipants [] rid = Some []"
| "filterParticipants (acc # rest) rid =
     (case toNumber (roundJoined (snd acc)) of
        None \<Rightarrow> None
      | Some joined \<Rightarrow>
          if joined = rid then
            (case toNumber (balance (snd acc)) of
               None \<Rightarrow> None
             | Some bal \<Rightarrow>
                 (case filterParticipants rest rid of
                    None \<Rightarrow> None
                  | Some kept \<Rightarrow> Some (if bal > 0 then acc # kept else kept)))
          else filterParticipants rest rid)"

definition useParticipantCount :: "bool \<Rightarrow> int option \<Rightarrow> fetchedAccounts option \<Rightarrow> nat" where
  "useParticipantCount program roundIdOpt fetched =
     (if \<not> program then 0
      else case roundIdOpt of
        None \<Rightarrow> 0
      | Some rid \<Rightarrow>
          (case fetched of
             None \<Rightarrow> 0
           | Some allAccounts \<Rightarrow>
               (case filterParticipants allAccounts rid of
                  None \<Rightarrow> 0
                | Some participants \<Rightarrow> length participants)))"

text \<open>
  The purchase screen calls the hook with \<open>roundState?.roundId || null\<close>: no round state
  and the round number 0 both give \<open>null\<close>.
\<close>

definition screenParticipantCount ::
  "bool \<Rightarrow> RoundState option \<Rightarrow> fetchedAccounts option \<Rightarrow> nat" where
  "screenParticipantCount program roundState fetched =
     useParticipantCount program
       (case roundState of
          None \<Rightarrow> None
        | Some r \<Rightarrow> if roundId r = 0 then None else Some (roundId r))
       fetched"

text \<open>
  The batch the scripts \<open>test_crank\<close> and \<open>test_full_flow\<close> hand to the crank for the
  winner search: the addresses of \<open>getParticipants\<close> (\<open>participants.map(p => p.pubkey)\<close>).
\<close>

definition scriptCrankBatch :: "fetchedAccounts option \<Rightarrow> int \<Rightarrow> string list" where
  "scriptCrankBatch fetched rid = map pubkey (getParticipants fetched rid)"

section \<open>Example states\<close>

text \<open>Example states: the rounds and the two-participant ledger of the spec's scenarios.\<close>

definition exampleRound :: RoundState where
  "exampleRound = newRound 1 0 ''stake'' 0"

definition exampleRound15 :: RoundState where
  "exampleRound15 = exampleRound\<lparr>epochInRound := 3, totalTicketsSold := 15\<rparr>"

definition participantA :: UserAccount where
  "participantA = recordDeposit ''A'' 100000000 0 10 1 None"

definition participantB :: UserAccount where
  "participantB = recordDeposit ''B'' 50000000 10 5 1 None"

definition exampleDeposited :: RoundState where
  "exampleDeposited = exampleRound\<lparr>totalTicketsSold := 10, totalStakedLamports := 100000000\<rparr>"

definition exampleFinal :: RoundState where
  "exampleFinal = exampleDeposited\<lparr>epochInRound := 3, winner := Some ''A'', winningTicket := 9,
     isComplete := True, endEpoch := 361000\<rparr>"

definition exampleRefs :: crankRefs where
  "exampleRefs = \<lparr>lastCrankAttempt = 0, lastRoundInitAttempt = 0, isInitializingRound = False\<rparr>"

definition exampleEnv :: crankEnv where
  "exampleEnv = \<lparr>walletReady = True, isProcessing = False, initRoundSucceeds = True\<rparr>"

text \<open>
  Example amounts and environments. \<open>nearMultiple\<close> is the double \<open>0.01 + 2^-40\<close>, where
  \<open>0.01\<close> is the double of the literal: more than one ticket and less than two, and less
  than a thousandth of a lamport above one ticket.
\<close>

definition nearMultiple :: rat where
  "nearMultiple = 5764607523558523 / 576460752303423488"

definition exampleDepositEnv :: depositEnv where
  "exampleDepositEnv = \<lparr>ready = True, outcome = Confirmed ''signature''\<rparr>"

definition exampleTxState :: txState where
  "exampleTxState = \<lparr>txProcessing = False, txError = None, lastTxSignature = None\<rparr>"

definition exampleUi :: raffleUi where
  "exampleUi = \<lparr>ticketsToBuy = 5, showConfirmation = False, showSuccess = False,
     purchasedTicketNumbers = None\<rparr>"

definition exampleUiEnv :: uiEnv where
  "exampleUiEnv = \<lparr>connected = True, uiProcessing = False, depositEnvOf = exampleDepositEnv,
     txStateOf = exampleTxState\<rparr>"

definition exampleAccounts :: fetchedAccounts where
  "exampleAccounts =
     [(''pdaA'', participantA), (''pdaB'', participantB\<lparr>balance := 0\<rparr>),
      (''pdaC'', participantA\<lparr>owner := ''C'', roundJoined := 2\<rparr>)]"

definition exampleTicket :: "int \<Rightarrow> bool \<Rightarrow> ClaimTicket" where
  "exampleTicket i c = \<lparr>claimRoundId = i, claimWinner = ''me'', prizeAmount = 7,
     stakeAmount = 100000000, claimed = c, claimBump = 0\<rparr>"

definition exampleStore :: claimStore where
  "exampleStore = (\<lambda>key.
     if key = (1, ''me'') then Some (exampleTicket 1 False)
     else if key = (8, ''me'') then Some (exampleTicket 8 True)
     else if key = (10, ''me'')
       then Some ((exampleTicket 10 False)\<lparr>prizeAmount := 9007199254740992\<rparr>)
     else if key = (12, ''me'') then Some (exampleTicket 12 False)
     else None)"

section \<open>Epoch computation\<close>

lemma expectedEpoch_bounds:
  assumes "startEpoch rs \<le> now"
  shows "1 \<le> expectedEpoch rs now" and "expectedEpoch rs now \<le> 3"
proof -
  have "0 \<le> (now - startEpoch rs) div 120000"
    using assms by (simp add: pos_imp_zdiv_nonneg_iff)
  then show "1 \<le> expectedEpoch rs now"
    by (simp add: expectedEpoch_def epochsPassed_def elapsedMs_def EPOCH_DURATION_SECONDS_def)
  show "expectedEpoch rs now \<le> 3"
    by (simp add: expectedEpoch_def)
qed

lemma expectedEpoch_mono:
  assumes "now \<le> now'"
  shows "expectedEpoch rs now \<le> expectedEpoch rs now'"
proof -
  have "(now - startEpoch rs) div 120000 \<le> (now' - startEpoch rs) div 120000"
    using assms by (intro zdiv_mono1) simp_all
  then show ?thesis
    by (simp add: expectedEpoch_def epochsPassed_def elapsedMs_def EPOCH_DURATION_SECONDS_def)
qed

lemma epochInRound_advance: "epochInRound r \<le> epochInRound (advance d now r)"
  by (simp add: advance_def)

lemma epochInRound_finalize:
  "finalize now seed batch r = Inr r' \<Longrightarrow> epochInRound r' = epochInRound r"
  by (auto simp: finalize_def split: sum.splits)

lemma epochInRound_crank:
  "crank d now seed batch r = Inr r' \<Longrightarrow> epochInRound r \<le> epochInRound r'"
  using epochInRound_advance [of r d now]
  by (auto simp: crank_def Let_def split: if_splits dest: epochInRound_finalize)

lemma epochInRound_crankCalls: "epochInRound r \<le> epochInRound (crankCalls d cs r)"
proof (induction cs arbitrary: r)
  case Nil
  show ?case by simp
next
  case (Cons c cs)
  obtain now seed batch where c: "c = (now, seed, batch)"
    by (cases c) auto
  show ?case
  proof (cases "crank d now seed batch r")
    case (Inl e)
    with c Cons.IH [of r] show ?thesis by simp
  next
    case (Inr r')
    from epochInRound_crank [OF Inr] Cons.IH [of r'] c Inr show ?thesis by simp
  qed
qed

lemma no_crank_call_unless_due:
  assumes "CallCrank \<in> set (snd (checkAndCrank env rs now seedNow refs))"
  shows "shouldAdvanceEpoch rs now \<or> shouldFinalize rs now"
  using assms by (auto simp: checkAndCrank_def split: if_splits)

text \<open>
  Claim C2. The crank check computes the target epoch as
  \<open>min (floor ((now - startEpoch) / epochDuration) + 1) 3\<close>; for \<open>now \<ge> startEpoch\<close> it lies
  in \<open>[1, 3]\<close>; it is non-decreasing in \<open>now\<close>; the check asks for an epoch advance exactly
  when the target exceeds the stored \<open>epochInRound\<close>, and a crank call that is not due to
  finalization is made only then; and \<open>epochInRound\<close> never decreases across any sequence
  of crank calls of the on-chain program.
\<close>

theorem C2_target_epoch:
  "expectedEpoch rs now = min ((now - startEpoch rs) div (EPOCH_DURATION_SECONDS * 1000) + 1) 3
   \<and> (startEpoch rs \<le> now \<longrightarrow> 1 \<le> expectedEpoch rs now \<and> expectedEpoch rs now \<le> 3)
   \<and> (now \<le> now' \<longrightarrow> expectedEpoch rs now \<le> expectedEpoch rs now')
   \<and> (shouldAdvanceEpoch rs now \<longleftrightarrow> epochInRound rs < expectedEpoch rs now)
   \<and> (CallCrank \<in> set (snd (checkAndCrank env rs now seedNow refs)) \<and> \<not> shouldFinalize rs now
        \<longrightarrow> epochInRound rs < expectedEpoch rs now)
   \<and> epochInRound r \<le> epochInRound (crankCalls d cs r)"
proof -
  have "expectedEpoch rs now = min ((now - startEpoch rs) div (EPOCH_DURATION_SECONDS * 1000) + 1) 3"
    by (simp add: expectedEpoch_def epochsPassed_def elapsedMs_def)
  moreover have "startEpoch rs \<le> now \<longrightarrow> 1 \<le> expectedEpoch rs now \<and> expectedEpoch rs now \<le> 3"
    using expectedEpoch_bounds by blast
  moreover have "now \<le> now' \<longrightarrow> expectedEpoch rs now \<le> expectedEpoch rs now'"
    using expectedEpoch_mono by blast
  moreover have "shouldAdvanceEpoch rs now \<longleftrightarrow> epochInRound rs < expectedEpoch rs now"
    by (simp add: shouldAdvanceEpoch_def)
  moreover have "CallCrank \<in> set (snd (checkAndCrank env rs now seedNow refs)) \<and> \<not> shouldFinalize rs now
        \<longrightarrow> epochInRound rs < expectedEpoch rs now"
    using no_crank_call_unless_due [of env rs now seedNow refs]
    by (auto simp: shouldAdvanceEpoch_def)
  moreover have "epochInRound r \<le> epochInRound (crankCalls d cs r)"
    by (rule epochInRound_crankCalls)
  ultimately show ?thesis by blast
qed

theorem C2_target_epoch_witness:
  "startEpoch exampleRound \<le> 121000
   \<and> expectedEpoch exampleRound 121000 = 2
   \<and> (121000 :: int) \<le> 361000
   \<and> expectedEpoch exampleRound 121000 \<le> expectedEpoch exampleRound 361000
   \<and> shouldAdvanceEpoch exampleRound 121000
   \<and> CallCrank \<in> set (snd (checkAndCrank exampleEnv exampleRound 121000 121001 exampleRefs))
   \<and> \<not> shouldFinalize exampleRound 121000
   \<and> epochInRound exampleRound < expectedEpoch exampleRound 121000
   \<and> epochInRound (crankCalls 120000 [(121000, 7, []), (100, 8, [])] exampleRound) = 2"
  using C2_target_epoch [of exampleRound 121000 361000 exampleEnv 121001 exampleRefs
      exampleRound 120000 "[(121000, 7, []), (100, 8, [])]"]
  by (simp add: exampleRound_def newRound_def exampleEnv_def exampleRefs_def
      checkAndCrank_def shouldAdvanceEpoch_def shouldFinalize_def expectedEpoch_def
      epochsPassed_def elapsedMs_def epoch3EndTime_def EPOCH_DURATION_SECONDS_def
      crank_def advance_def targetEpoch_def finalizeDue_def Let_def)

section \<open>Finalization and zero-ticket rounds\<close>

lemma advance_fields [simp]:
  "startEpoch (advance d now r) = startEpoch r"
  "totalTicketsSold (advance d now r) = totalTicketsSold r"
  "isComplete (advance d now r) = isComplete r"
  by (simp_all add: advance_def)

lemma targetEpoch_advance [simp]: "targetEpoch d (advance d now r) t = targetEpoch d r t"
  by (simp add: targetEpoch_def)

lemma finalize_Inr:
  assumes "finalize now seed batch r = Inr r'"
  shows "isComplete r'" and "totalTicketsSold r' = totalTicketsSold r"
    and "startEpoch r' = startEpoch r" and "epochInRound r' = epochInRound r"
  using assms by (auto simp: finalize_def split: sum.splits)

lemma crank_tickets:
  assumes "crank d now seed batch r = Inr r'"
  shows "totalTicketsSold r' = totalTicketsSold r"
  using assms by (auto simp: crank_def Let_def split: if_splits dest: finalize_Inr(2))

lemma crank_completes:
  assumes "crank d now seed batch r = Inr r'" and "\<not> isComplete r" and "isComplete r'"
  shows "epochInRound r' \<ge> 3 \<and> now \<ge> startEpoch r' + 3 * d \<and> totalTicketsSold r' > 0"
proof (cases "finalizeDue d now (advance d now r)")
  case True
  with assms(1) have fin: "finalize now seed batch (advance d now r) = Inr r'"
    by (simp add: crank_def Let_def)
  from True finalize_Inr(2-4) [OF fin] show ?thesis
    by (simp add: finalizeDue_def)
next
  case False
  with assms(1) have "r' = advance d now r"
    by (simp add: crank_def Let_def)
  then have "isComplete r' = isComplete r"
    by simp
  with assms(2,3) show ?thesis by simp
qed

lemma crank_complete_tickets:
  assumes "crank d now seed batch r = Inr r'" and "isComplete r \<longrightarrow> totalTicketsSold r > 0"
  shows "isComplete r' \<longrightarrow> totalTicketsSold r' > 0"
proof (cases "isComplete r")
  case True
  with assms(2) crank_tickets [OF assms(1)] show ?thesis by simp
next
  case False
  with crank_completes [OF assms(1)] show ?thesis by blast
qed

lemma crank_zero_tickets:
  assumes "totalTicketsSold r = 0" and "\<not> isComplete r"
  shows "crank d now seed batch r = Inr (advance d now r)"
  using assms by (simp add: crank_def Let_def finalizeDue_def)

lemma crankCalls_zero_tickets:
  assumes "totalTicketsSold r = 0" and "\<not> isComplete r"
  shows "\<not> isComplete (crankCalls d cs r) \<and> totalTicketsSold (crankCalls d cs r) = 0"
  using assms
proof (induction cs arbitrary: r)
  case Nil
  then show ?case by simp
next
  case (Cons c cs)
  obtain now seed batch where c: "c = (now, seed, batch)"
    by (cases c) auto
  have "crankCalls d (c # cs) r = crankCalls d cs (advance d now r)"
    using c crank_zero_tickets [OF Cons.prems] by simp
  moreover have "\<not> isComplete (crankCalls d cs (advance d now r))
      \<and> totalTicketsSold (crankCalls d cs (advance d now r)) = 0"
    using Cons.prems by (intro Cons.IH) simp_all
  ultimately show ?case by simp
qed

lemma deposit_complete_tickets:
  assumes "depositOnChain d now seed batch identity amount r rec = Inr (r', u)"
  shows "\<not> isComplete r'"
  using assms
  by (auto simp: depositOnChain_def Let_def split: if_splits sum.splits)

lemma reachable_complete_tickets:
  assumes "reachable d r"
  shows "isComplete r \<longrightarrow> totalTicketsSold r > 0"
  using assms
proof (induction rule: reachable.induct)
  case (created rid now stake prize)
  show ?case by (simp add: newRound_def)
next
  case (cranked r now seed batch r')
  from crank_complete_tickets [OF cranked.hyps(2) cranked.IH] show ?case .
next
  case (deposited r now seed batch identity amount rec r' u)
  from deposit_complete_tickets [OF deposited.hyps(2)] show ?case by simp
qed

lemma no_crank_call_zero_tickets:
  assumes "epochInRound rs \<ge> 3" and "totalTicketsSold rs = 0"
  shows "CallCrank \<notin> set (snd (checkAndCrank env rs now seedNow refs))"
proof
  assume "CallCrank \<in> set (snd (checkAndCrank env rs now seedNow refs))"
  then have "shouldAdvanceEpoch rs now \<or> shouldFinalize rs now"
    by (rule no_crank_call_unless_due)
  moreover have "expectedEpoch rs now \<le> 3"
    by (simp add: expectedEpoch_def)
  ultimately show False
    using assms by (simp add: shouldAdvanceEpoch_def shouldFinalize_def)
qed

text \<open>
  Claim C1. The crank check asks for finalization only when the stored \<open>epochInRound\<close> is
  at least 3, the clock has reached \<open>startEpoch + 3 * epochDuration\<close> and a ticket was
  sold, and the on-chain crank completes a round only under the same three conditions.
  So no reachable round state is complete with \<open>totalTicketsSold = 0\<close>, and a round
  without tickets stays open under any sequence of crank calls; for such a round in
  epoch 3 the check makes no crank call at all.
\<close>

theorem C1_finalize_needs_tickets:
  "(shouldFinalize rs now \<longrightarrow>
      epochInRound rs \<ge> 3 \<and> now \<ge> startEpoch rs + 3 * (EPOCH_DURATION_SECONDS * 1000)
      \<and> totalTicketsSold rs > 0)
   \<and> (crank d t seed batch r1 = Inr r2 \<and> \<not> isComplete r1 \<and> isComplete r2 \<longrightarrow>
      epochInRound r2 \<ge> 3 \<and> t \<ge> startEpoch r2 + 3 * d \<and> totalTicketsSold r2 > 0)
   \<and> (reachable d r \<longrightarrow> \<not> (isComplete r \<and> totalTicketsSold r = 0))
   \<and> (totalTicketsSold r0 = 0 \<and> \<not> isComplete r0 \<longrightarrow>
      \<not> isComplete (crankCalls d cs r0) \<and> totalTicketsSold (crankCalls d cs r0) = 0)
   \<and> (epochInRound rs \<ge> 3 \<and> totalTicketsSold rs = 0 \<longrightarrow>
      CallCrank \<notin> set (snd (checkAndCrank env rs now seedNow refs)))"
proof -
  have "shouldFinalize rs now \<longrightarrow>
      epochInRound rs \<ge> 3 \<and> now \<ge> startEpoch rs + 3 * (EPOCH_DURATION_SECONDS * 1000)
      \<and> totalTicketsSold rs > 0"
    by (simp add: shouldFinalize_def epoch3EndTime_def)
  moreover have "crank d t seed batch r1 = Inr r2 \<and> \<not> isComplete r1 \<and> isComplete r2 \<longrightarrow>
      epochInRound r2 \<ge> 3 \<and> t \<ge> startEpoch r2 + 3 * d \<and> totalTicketsSold r2 > 0"
    using crank_completes by blast
  moreover have "reachable d r \<longrightarrow> \<not> (isComplete r \<and> totalTicketsSold r = 0)"
    using reachable_complete_tickets [of d r] by auto
  moreover have "totalTicketsSold r0 = 0 \<and> \<not> isComplete r0 \<longrightarrow>
      \<not> isComplete (crankCalls d cs r0) \<and> totalTicketsSold (crankCalls d cs r0) = 0"
    using crankCalls_zero_tickets by blast
  moreover have "epochInRound rs \<ge> 3 \<and> totalTicketsSold rs = 0 \<longrightarrow>
      CallCrank \<notin> set (snd (checkAndCrank env rs now seedNow refs))"
    using no_crank_call_zero_tickets by blast
  ultimately show ?thesis by blast
qed

lemmas example_defs =
  exampleRound_def exampleRound15_def exampleDeposited_def exampleFinal_def newRound_def
  participantA_def participantB_def recordDeposit_def exampleRefs_def exampleEnv_def

lemmas crank_defs =
  crank_def advance_def targetEpoch_def finalizeDue_def finalize_def select_def
  winningTicketOf_def

lemmas check_defs =
  checkAndCrank_def shouldAdvanceEpoch_def shouldFinalize_def expectedEpoch_def
  epochsPassed_def elapsedMs_def epoch3EndTime_def EPOCH_DURATION_SECONDS_def

lemma example_deposit:
  "depositOnChain 120000 1000 0 [] ''A'' 100000000 exampleRound None
     = Inr (exampleDeposited, participantA)"
  by (simp add: depositOnChain_def TICKET_PRICE_LAMPORTS_def U64_MAX_def example_defs
      crank_defs Let_def)

lemma example_crank:
  "crank 120000 361000 123456789 [participantA] exampleDeposited = Inr exampleFinal"
  by (simp add: example_defs crank_defs Let_def)

lemma reachable_exampleFinal: "reachable 120000 exampleFinal"
proof -
  have "reachable 120000 exampleRound"
    unfolding exampleRound_def by (rule reachable.created)
  then have "reachable 120000 exampleDeposited"
    using example_deposit by (rule reachable.deposited)
  then show ?thesis
    using example_crank by (rule reachable.cranked)
qed

theorem C1_finalize_needs_tickets_witness:
  "shouldFinalize exampleRound15 361000
   \<and> epochInRound exampleRound15 \<ge> 3 \<and> totalTicketsSold exampleRound15 > 0
   \<and> crank 120000 361000 123456789 [participantA] exampleDeposited = Inr exampleFinal
   \<and> \<not> isComplete exampleDeposited \<and> isComplete exampleFinal
   \<and> totalTicketsSold exampleFinal > 0
   \<and> reachable 120000 exampleFinal
   \<and> totalTicketsSold exampleRound = 0 \<and> \<not> isComplete exampleRound
   \<and> \<not> isComplete (crankCalls 120000 [(361000, 7, [])] exampleRound)
   \<and> epochInRound (exampleRound\<lparr>epochInRound := 3\<rparr>) \<ge> 3
   \<and> CallCrank \<notin> set (snd (checkAndCrank exampleEnv (exampleRound\<lparr>epochInRound := 3\<rparr>)
        361000 361001 exampleRefs))"
  using C1_finalize_needs_tickets [where rs = exampleRound15 and now = 361000 and d = 120000
      and t = 361000 and seed = 123456789 and batch = "[participantA]"
      and ?r1.0 = exampleDeposited and ?r2.0 = exampleFinal and r = exampleFinal
      and ?r0.0 = exampleRound and cs = "[(361000, 7, [])]"]
    C1_finalize_needs_tickets [where rs = "exampleRound\<lparr>epochInRound := 3\<rparr>" and now = 361000
      and env = exampleEnv and seedNow = 361001 and refs = exampleRefs]
    example_crank reachable_exampleFinal
  by (simp add: example_defs check_defs)

section \<open>Idempotence of the crank\<close>

lemma advance_idem: "advance d now (advance d now r) = advance d now r"
  by (simp add: advance_def targetEpoch_def)

lemma target_le_advance: "targetEpoch d r now \<le> epochInRound (advance d now r)"
  by (simp add: advance_def)

lemma advance_finalized:
  assumes "finalize now seed batch (advance d now r) = Inr r'"
  shows "advance d now r' = r'"
proof -
  have "epochInRound r' = epochInRound (advance d now r)"
    and "startEpoch r' = startEpoch r"
    using finalize_Inr(3,4) [OF assms] by simp_all
  then have "targetEpoch d r' now \<le> epochInRound r'"
    using target_le_advance [of d r now] by (simp add: targetEpoch_def)
  then show ?thesis
    by (simp add: advance_def)
qed

lemma crank_idem:
  assumes "crank d now seed batch r = Inr r'"
  shows "crank d now seed' batch' r' = Inr r'"
proof (cases "finalizeDue d now (advance d now r)")
  case True
  with assms have fin: "finalize now seed batch (advance d now r) = Inr r'"
    by (simp add: crank_def Let_def)
  have "advance d now r' = r'"
    using fin by (rule advance_finalized)
  moreover have "\<not> finalizeDue d now r'"
    using finalize_Inr(1) [OF fin] by (simp add: finalizeDue_def)
  ultimately show ?thesis
    by (simp add: crank_def Let_def)
next
  case False
  with assms have r': "r' = advance d now r"
    by (simp add: crank_def Let_def)
  show ?thesis
    using False by (simp add: r' crank_def Let_def advance_idem)
qed

lemma crankCalls_twice:
  "crankCalls d [(now, seed, batch), (now, seed, batch)] r = crankCalls d [(now, seed, batch)] r"
proof (cases "crank d now seed batch r")
  case (Inl e)
  then show ?thesis by simp
next
  case (Inr r')
  with crank_idem [OF Inr, of seed batch] show ?thesis by simp
qed

lemma check_idle:
  assumes "expectedEpoch rs t = epochInRound rs" and "\<not> shouldFinalize rs t"
  shows "CallCrank \<notin> set (snd (checkAndCrank env rs t s refs))"
    and "\<not> isComplete rs \<Longrightarrow> checkAndCrank env rs t s refs = (refs, [])"
  using assms by (auto simp: checkAndCrank_def shouldAdvanceEpoch_def)

lemma check_throttled:
  assumes "CallCrank \<in> set (snd (checkAndCrank env rs t s refs))"
  shows "CallCrank \<notin> set (snd (checkAndCrank env' rs' t s' (fst (checkAndCrank env rs t s refs))))"
proof -
  from assms have "lastCrankAttempt (fst (checkAndCrank env rs t s refs)) = t"
    by (auto simp: checkAndCrank_def split: if_splits)
  then show ?thesis
    by (auto simp: checkAndCrank_def [of env' rs'])
qed

text \<open>
  Claim C6, at the failing input. The round is complete, with its stored epoch equal
  to the target epoch 3. The first check submits the initialization of round 2 and
  sets \<open>isInitializingRound\<close>. The second check, at the same clock reading, finds the
  flag set, so it does not take the branch that ends with \<open>return; // Don't run crank if
  round is complete\<close>; for \<open>shouldFinalize\<close> the round is in epoch 3, past the end of the
  epoch and has tickets, so the check calls the crank.
\<close>

theorem C6_crank_call_on_complete_round:
  "isComplete exampleFinal
   \<and> expectedEpoch exampleFinal 400000 = epochInRound exampleFinal
   \<and> checkAndCrank exampleEnv exampleFinal 400000 400001 exampleRefs
       = (\<lparr>lastCrankAttempt = 0, lastRoundInitAttempt = 400000, isInitializingRound = True\<rparr>,
          [InitRound 2 400001])
   \<and> checkAndCrank exampleEnv exampleFinal 400000 400002
         \<lparr>lastCrankAttempt = 0, lastRoundInitAttempt = 400000, isInitializingRound = True\<rparr>
       = (\<lparr>lastCrankAttempt = 400000, lastRoundInitAttempt = 400000,
            isInitializingRound = True\<rparr>,
          [CallCrank])"
  by (simp add: example_defs check_defs)

section \<open>Winner selection\<close>

lemma scanBatch_Some:
  assumes "scanBatch w batch = Some i"
  shows "\<exists>p \<in> set batch. owner p = i \<and> ticketStart p \<le> w \<and> w \<le> ticketEnd p"
  using assms by (induction batch) (auto split: if_splits)

lemma scanBatch_None:
  "scanBatch w batch = None \<longleftrightarrow> (\<forall>p \<in> set batch. \<not> (ticketStart p \<le> w \<and> w \<le> ticketEnd p))"
  by (induction batch) auto

lemma scanBatch_owner:
  assumes "p \<in> set batch" and "ticketStart p \<le> w" and "w \<le> ticketEnd p"
    and "\<forall>q \<in> set batch. ticketStart q \<le> w \<and> w \<le> ticketEnd q \<longrightarrow> owner q = owner p"
  shows "scanBatch w batch = Some (owner p)"
proof (cases "scanBatch w batch")
  case None
  with assms(1-3) show ?thesis
    by (auto simp: scanBatch_None)
next
  case (Some i)
  from scanBatch_Some [OF Some] assms(4) have "i = owner p"
    by auto
  with Some show ?thesis by simp
qed

text \<open>
  Claim C7. Winner selection is a function of seed, ticket count and ledger batch alone:
  it computes \<open>winningTicket = seed mod ticketCount\<close>, which lies in \<open>[0, ticketCount)\<close>
  for a positive count; an identity it returns owns a record of the batch whose range
  contains that index, and when the batch holds a record containing the index and all
  such records belong to one identity, that identity is returned; equal inputs give the
  equal winner. With 15 tickets sold and seed 123456789 the winning ticket is 9, owned
  by participant A (tickets 0 to 9; B holds 10 to 14).
\<close>

theorem C7_winner_selection:
  "winningTicketOf seed n = seed mod n
   \<and> (0 < n \<longrightarrow> 0 \<le> winningTicketOf seed n \<and> winningTicketOf seed n < n)
   \<and> (select seed n batch = Inr i \<longrightarrow>
        (\<exists>p \<in> set batch. owner p = i \<and> ticketStart p \<le> seed mod n \<and> seed mod n \<le> ticketEnd p))
   \<and> (p \<in> set batch \<and> ticketStart p \<le> seed mod n \<and> seed mod n \<le> ticketEnd p
        \<and> (\<forall>q \<in> set batch. ticketStart q \<le> seed mod n \<and> seed mod n \<le> ticketEnd q
              \<longrightarrow> owner q = owner p)
        \<longrightarrow> select seed n batch = Inr (owner p))
   \<and> (seed = seed' \<and> n = n' \<and> batch = batch' \<longrightarrow> select seed n batch = select seed' n' batch')
   \<and> winningTicketOf 123456789 15 = 9
   \<and> select 123456789 15 [participantA, participantB] = Inr ''A''"
proof -
  have c1: "winningTicketOf seed n = seed mod n"
    by (simp add: winningTicketOf_def)
  have c2: "0 < n \<longrightarrow> 0 \<le> winningTicketOf seed n \<and> winningTicketOf seed n < n"
    by (simp add: winningTicketOf_def)
  have c3: "select seed n batch = Inr i \<longrightarrow>
        (\<exists>p \<in> set batch. owner p = i \<and> ticketStart p \<le> seed mod n \<and> seed mod n \<le> ticketEnd p)"
  proof
    assume "select seed n batch = Inr i"
    then have "scanBatch (seed mod n) batch = Some i"
      by (simp add: select_def winningTicketOf_def split: option.splits)
    then show "\<exists>p \<in> set batch. owner p = i \<and> ticketStart p \<le> seed mod n \<and> seed mod n \<le> ticketEnd p"
      by (rule scanBatch_Some)
  qed
  have c4: "p \<in> set batch \<and> ticketStart p \<le> seed mod n \<and> seed mod n \<le> ticketEnd p
        \<and> (\<forall>q \<in> set batch. ticketStart q \<le> seed mod n \<and> seed mod n \<le> ticketEnd q
              \<longrightarrow> owner q = owner p)
        \<longrightarrow> select seed n batch = Inr (owner p)"
  proof
    assume h: "p \<in> set batch \<and> ticketStart p \<le> seed mod n \<and> seed mod n \<le> ticketEnd p
        \<and> (\<forall>q \<in> set batch. ticketStart q \<le> seed mod n \<and> seed mod n \<le> ticketEnd q
              \<longrightarrow> owner q = owner p)"
    then have "scanBatch (seed mod n) batch = Some (owner p)"
      by (intro scanBatch_owner) blast+
    then show "select seed n batch = Inr (owner p)"
      by (simp add: select_def winningTicketOf_def)
  qed
  have c5: "seed = seed' \<and> n = n' \<and> batch = batch' \<longrightarrow> select seed n batch = select seed' n' batch'"
    by blast
  have c6: "winningTicketOf 123456789 15 = 9"
    by (simp add: winningTicketOf_def)
  have c7: "select 123456789 15 [participantA, participantB] = Inr ''A''"
    by (simp add: select_def winningTicketOf_def participantA_def participantB_def
        recordDeposit_def)
  from c1 c2 c3 c4 c5 c6 c7 show ?thesis
    by (intro conjI)
qed

theorem C7_winner_selection_witness:
  "(0 :: int) < 15 \<and> winningTicketOf 123456789 15 = 9
   \<and> select 123456789 15 [participantB, participantA] = Inr ''A''
   \<and> participantA \<in> set [participantB, participantA]
   \<and> ticketStart participantA \<le> 9 \<and> 9 \<le> ticketEnd participantA
   \<and> owner participantA = ''A''"
  using C7_winner_selection [where seed = 123456789 and n = 15
      and batch = "[participantB, participantA]" and i = "''A''" and p = participantA
      and seed' = 123456789 and n' = 15 and batch' = "[participantB, participantA]"]
  by (simp add: participantA_def participantB_def recordDeposit_def select_def
      winningTicketOf_def)

section \<open>Rounding error of the number model\<close>

lemma bitlength_bounds:
  "k > 0 \<Longrightarrow> 2 ^ (bitlength k - 1) \<le> k \<and> k < 2 ^ bitlength k"
proof (induction k rule: bitlength.induct)
  case (1 k)
  show ?case
  proof (cases "k div 2 = 0")
    case True
    with 1(2) have "k = 1" by presburger
    then show ?thesis by (simp add: bitlength.simps)
  next
    case False
    with 1(2) have q: "k div 2 > 0" by presburger
    with 1 have IH: "2 ^ (bitlength (k div 2) - 1) \<le> k div 2" "k div 2 < 2 ^ bitlength (k div 2)"
      by auto
    have pos: "bitlength (k div 2) > 0"
      using q by (simp add: bitlength.simps [of "k div 2"])
    have bl: "bitlength k = Suc (bitlength (k div 2))"
      using 1(2) by (simp add: bitlength.simps [of k])
    define P where "P = (2::int) ^ bitlength (k div 2)"
    define P' where "P' = (2::int) ^ (bitlength (k div 2) - 1)"
    have "P = 2 * P'"
      unfolding P_def P'_def using pos by (cases "bitlength (k div 2)") simp_all
    moreover have "P' \<le> k div 2" and "k div 2 < P"
      using IH by (simp_all add: P_def P'_def)
    ultimately have "P \<le> k \<and> k < 2 * P"
      by linarith
    then show ?thesis
      unfolding bl P_def by simp
  qed
qed

lemma pow2_powi: "pow2 e = 2 powi e"
  by (simp add: pow2_def power_int_def field_simps)

lemma pow2_pos [simp]: "pow2 e > 0"
  by (simp add: pow2_def)

lemma pow2_add: "pow2 (a + b) = pow2 a * pow2 b"
  by (simp add: pow2_powi power_int_add)

lemma binade_le:
  assumes "x > 0"
  shows "pow2 (binade x) \<le> x"
proof (cases "x \<ge> 1")
  case True
  define m where "m = \<lfloor>x\<rfloor>"
  have m: "m > 0" using True by (simp add: m_def)
  have "(2::int) ^ (bitlength m - 1) \<le> m"
    using bitlength_bounds [OF m] by simp
  then have "(2::rat) ^ (bitlength m - 1) \<le> of_int m"
    by (metis of_int_le_iff of_int_numeral of_int_power)
  also have "\<dots> \<le> x" by (simp add: m_def)
  finally have "(2::rat) ^ (bitlength m - 1) \<le> x" .
  moreover have "bitlength m > 0"
    using m by (simp add: bitlength.simps [of m])
  ultimately show ?thesis
    using True by (simp add: binade_def pow2_def m_def [symmetric] nat_diff_distrib)
next
  case False
  define m where "m = \<lceil>1 / x\<rceil> - 1"
  have "1 / x > 1" using assms False by simp
  then have c2: "\<lceil>1 / x\<rceil> \<ge> 2" by linarith
  then have m: "m > 0" by (simp add: m_def)
  have "m < 2 ^ bitlength m"
    using bitlength_bounds [OF m] by simp
  then have "\<lceil>1 / x\<rceil> \<le> 2 ^ bitlength m"
    by (simp add: m_def)
  then have "1 / x \<le> 2 ^ bitlength m"
    by (metis ceiling_le_iff of_int_numeral of_int_power)
  then have "1 / 2 ^ bitlength m \<le> x"
    using assms by (simp add: field_simps)
  moreover have "bitlength m > 0"
    using m by (simp add: bitlength.simps [of m])
  ultimately show ?thesis
    using False by (simp add: binade_def pow2_def m_def [symmetric])
qed

lemma binade_less_ge1:
  assumes "x \<ge> 1"
  shows "x < pow2 (binade x + 1)"
proof -
  define m where "m = \<lfloor>x\<rfloor>"
  have m: "m > 0" using assms by (simp add: m_def)
  have "m < 2 ^ bitlength m"
    using bitlength_bounds [OF m] by simp
  then have "m + 1 \<le> 2 ^ bitlength m" by simp
  then have "(of_int (m + 1) :: rat) \<le> of_int (2 ^ bitlength m)"
    by (simp only: of_int_le_iff)
  moreover have "x < of_int \<lfloor>x\<rfloor> + 1"
    by linarith
  then have "x < of_int (m + 1)"
    by (simp add: m_def)
  ultimately have "x < 2 ^ bitlength m" by simp
  then show ?thesis
    using assms by (simp add: binade_def pow2_def m_def [symmetric])
qed

lemma binade_less_lt1:
  assumes "x > 0" and "x < 1"
  shows "x < pow2 (binade x + 1)"
proof -
  define m where "m = \<lceil>1 / x\<rceil> - 1"
  define k where "k = bitlength m - 1"
  have "1 / x > 1" using assms by simp
  then have c2: "\<lceil>1 / x\<rceil> \<ge> 2" by linarith
  then have m: "m > 0" by (simp add: m_def)
  have pos: "bitlength m > 0"
    using m by (simp add: bitlength.simps [of m])
  have "2 ^ k \<le> m"
    using bitlength_bounds [OF m] by (simp add: k_def)
  then have "2 ^ k < \<lceil>1 / x\<rceil>"
    by (simp add: m_def)
  then have "(of_int (2 ^ k) :: rat) < 1 / x"
    by (simp only: less_ceiling_iff)
  then have "(2 :: rat) ^ k < 1 / x"
    by simp
  then have "(2 :: rat) ^ k * x < 1"
    using assms(1) by (simp only: pos_less_divide_eq)
  then have "x * 2 ^ k < 1"
    by (simp only: mult.commute)
  then have B: "x < 1 / 2 ^ k"
    by (simp add: pos_less_divide_eq)
  have "- int (bitlength m) + 1 = - int k"
    using pos by (simp add: k_def)
  then have C: "pow2 (- int (bitlength m) + 1) = 1 / 2 ^ k"
    by (simp add: pow2_powi power_int_minus divide_inverse)
  have "binade x = - int (bitlength m)"
    using assms(2) by (simp add: binade_def m_def)
  with B C show ?thesis
    by simp
qed

lemma binade_less:
  assumes "x > 0"
  shows "x < pow2 (binade x + 1)"
  using assms binade_less_ge1 [of x] binade_less_lt1 [of x] by (cases "x \<ge> 1") simp_all

text \<open>
  So \<open>fl\<close> rounds a significand between \<open>2^52\<close> and \<open>2^53\<close>: the result has 53 significant
  bits.
\<close>

lemma significand_range:
  assumes "x > 0"
  shows "2 ^ 52 \<le> x / pow2 (binade x - 52)" and "x / pow2 (binade x - 52) < 2 ^ 53"
proof -
  define p where "p = pow2 (binade x - 52)"
  have pos: "p > 0" by (simp add: p_def)
  have n52: "pow2 52 = 2 ^ 52" and n53: "pow2 53 = 2 ^ 53"
    by (simp_all add: pow2_def)
  have "binade x = (binade x - 52) + 52" and "binade x + 1 = (binade x - 52) + 53"
    by simp_all
  then have "pow2 (binade x) = p * pow2 52" and "pow2 (binade x + 1) = p * pow2 53"
    unfolding p_def by (metis pow2_add)+
  then have lo: "p * 2 ^ 52 \<le> x" and hi: "x < p * 2 ^ 53"
    using binade_le [OF assms] binade_less [OF assms] by (simp_all add: n52 n53)
  from lo pos show "2 ^ 52 \<le> x / pow2 (binade x - 52)"
    unfolding p_def [symmetric] by (simp add: pos_le_divide_eq mult.commute)
  from hi pos show "x / pow2 (binade x - 52) < 2 ^ 53"
    unfolding p_def [symmetric] by (simp add: pos_divide_less_eq mult.commute)
qed

lemma rne_error: "\<bar>of_int (rne x) - x\<bar> \<le> 1 / 2"
proof -
  have "of_int \<lfloor>x\<rfloor> \<le> x" and "x < of_int \<lfloor>x\<rfloor> + 1"
    by linarith+
  then show ?thesis
    unfolding rne_def Let_def by (auto simp: abs_le_iff)
qed

lemma fl_error: "\<bar>fl x - x\<bar> \<le> \<bar>x\<bar> / 2 ^ 53"
proof (cases "x = 0")
  case True
  then show ?thesis by (simp add: fl_def)
next
  case False
  define e where "e = binade \<bar>x\<bar> - 52"
  define p where "p = pow2 e"
  have p: "p > 0" by (simp add: p_def)
  have flx: "fl x = of_int (rne (x / p)) * p"
    using False by (simp add: fl_def Let_def e_def p_def)
  have "\<bar>fl x - x\<bar> = \<bar>of_int (rne (x / p)) - x / p\<bar> * p"
  proof -
    have "fl x - x = (of_int (rne (x / p)) - x / p) * p"
      using p by (simp add: flx field_simps)
    then show ?thesis using p by (simp add: abs_mult)
  qed
  also have "\<dots> \<le> 1 / 2 * p"
    using rne_error [of "x / p"] p by (intro mult_right_mono) simp_all
  also have "\<dots> \<le> \<bar>x\<bar> / 2 ^ 53"
  proof -
    have "pow2 (binade \<bar>x\<bar>) \<le> \<bar>x\<bar>"
      using False by (intro binade_le) simp
    moreover have "pow2 (binade \<bar>x\<bar>) = p * 2 ^ 52"
    proof -
      have "pow2 (binade \<bar>x\<bar>) = pow2 (e + 52)" by (simp add: e_def)
      also have "\<dots> = p * pow2 52" by (simp add: pow2_add p_def)
      finally show ?thesis by (simp add: pow2_def)
    qed
    ultimately have "p * 2 ^ 52 \<le> \<bar>x\<bar>" by simp
    then show ?thesis by simp
  qed
  finally show ?thesis .
qed

text \<open>
  The rounding on known doubles: \<open>0.1\<close>, \<open>0.1 + 0.2 = 0.30000000000000004\<close>, \<open>1/3\<close>, and
  the ties \<open>2^53 + 1\<close> and \<open>2^53 + 3\<close>, which go to the even significand.
\<close>

lemma fl_examples:
  "fl (1 / 10) = 3602879701896397 / 36028797018963968"
  "fl (fl (1 / 10) + fl (2 / 10)) = 1351079888211149 / 4503599627370496"
  "fl (1 / 3) = 6004799503160661 / 18014398509481984"
  "fl 9007199254740993 = 9007199254740992"
  "fl 9007199254740995 = 9007199254740996"
  "fl (- (1 / 10)) = - fl (1 / 10)"
  by code_simp+

text \<open>Integers below \<open>2^53\<close> in magnitude are numbers, exactly.\<close>

lemma rne_of_int [simp]: "rne (of_int m) = m"
  by (simp add: rne_def)

lemma bitlength_le:
  assumes "0 < k" and "k < 2 ^ n"
  shows "bitlength k \<le> n"
proof (rule ccontr)
  assume "\<not> bitlength k \<le> n"
  then have "n \<le> bitlength k - 1" by simp
  then have "(2::int) ^ n \<le> 2 ^ (bitlength k - 1)"
    by (intro power_increasing) simp_all
  with bitlength_bounds [OF assms(1)] assms(2) show False by linarith
qed

lemma fl_of_int:
  assumes "\<bar>n\<bar> < 2 ^ 53"
  shows "fl (of_int n) = of_int n"
proof (cases "n = 0")
  case True
  then show ?thesis by (simp add: fl_def)
next
  case False
  define m where "m = \<bar>n\<bar>"
  have m: "0 < m" "m < 2 ^ 53"
    using False assms by (simp_all add: m_def)
  have abs: "\<bar>of_int n :: rat\<bar> = of_int m"
    by (simp add: m_def)
  have "1 \<le> m"
    using m(1) by simp
  then have "(1::rat) \<le> of_int m"
    by simp
  then have bin: "binade (of_int m) = int (bitlength m) - 1"
    by (simp add: binade_def)
  have "bitlength m \<le> 53"
    using m by (rule bitlength_le)
  define j where "j = 53 - bitlength m"
  have j: "int (bitlength m) - 1 - 52 = - int j"
    using \<open>bitlength m \<le> 53\<close> by (simp add: j_def)
  have p: "pow2 (- int j) = 1 / 2 ^ j"
    by (simp add: pow2_powi power_int_minus divide_inverse)
  have "of_int n / pow2 (- int j) = (of_int (n * 2 ^ j) :: rat)"
    by (simp add: p)
  then have "rne (of_int n / pow2 (- int j)) = n * 2 ^ j"
    by (simp only: rne_of_int)
  then show ?thesis
    using False by (simp add: fl_def abs bin j Let_def p)
qed

lemma TICKET_PRICE_SOL_value: "TICKET_PRICE_SOL = 5764607523034235 / 576460752303423488"
  by code_simp

lemma fl_bounds:
  assumes "x > 0"
  shows "x * (1 - 1 / 2 ^ 53) \<le> fl x" and "fl x \<le> x * (1 + 1 / 2 ^ 53)"
proof -
  have "\<bar>fl x - x\<bar> \<le> x / 2 ^ 53"
    using fl_error [of x] assms by simp
  then have "x - x / 2 ^ 53 \<le> fl x" and "fl x \<le> x + x / 2 ^ 53"
    by linarith+
  then show "x * (1 - 1 / 2 ^ 53) \<le> fl x" and "fl x \<le> x * (1 + 1 / 2 ^ 53)"
    by (simp_all add: algebra_simps)
qed

text \<open>
  The absolute rounding error: below \<open>2^k\<close> a number is rounded by at most \<open>2^(k-54)\<close>,
  half the spacing of the doubles there.
\<close>

lemma pow2_mono:
  assumes "a \<le> b"
  shows "pow2 a \<le> pow2 b"
  using assms by (simp add: pow2_powi power_int_increasing)

lemma binade_upper:
  assumes "0 < x" and "x < pow2 k"
  shows "binade x < k"
proof (rule ccontr)
  assume "\<not> binade x < k"
  then have "pow2 k \<le> pow2 (binade x)"
    by (intro pow2_mono) simp
  with binade_le [OF assms(1)] assms(2) show False
    by linarith
qed

lemma fl_half_ulp:
  assumes "x \<noteq> 0"
  shows "\<bar>fl x - x\<bar> \<le> pow2 (binade \<bar>x\<bar> - 53)"
proof -
  define p where "p = pow2 (binade \<bar>x\<bar> - 52)"
  have p: "p > 0" by (simp add: p_def)
  have flx: "fl x = of_int (rne (x / p)) * p"
    using assms by (simp add: fl_def Let_def p_def)
  have "fl x - x = (of_int (rne (x / p)) - x / p) * p"
    using p by (simp add: flx field_simps)
  then have "\<bar>fl x - x\<bar> = \<bar>of_int (rne (x / p)) - x / p\<bar> * p"
    using p by (simp add: abs_mult)
  also have "\<dots> \<le> 1 / 2 * p"
    using rne_error [of "x / p"] p by (intro mult_right_mono) simp_all
  also have "\<dots> = pow2 (binade \<bar>x\<bar> - 53)"
  proof -
    have "pow2 (binade \<bar>x\<bar> - 52) = pow2 ((binade \<bar>x\<bar> - 53) + 1)"
      by simp
    also have "\<dots> = pow2 (binade \<bar>x\<bar> - 53) * pow2 1"
      by (rule pow2_add)
    finally show ?thesis
      by (simp add: p_def pow2_def)
  qed
  finally show ?thesis .
qed

lemma fl_abs_error:
  assumes "0 < x" and "x < pow2 k"
  shows "\<bar>fl x - x\<bar> \<le> pow2 (k - 54)"
proof -
  have "binade x < k"
    using assms by (rule binade_upper)
  then have "pow2 (binade x - 53) \<le> pow2 (k - 54)"
    by (intro pow2_mono) simp
  moreover have "\<bar>fl x - x\<bar> \<le> pow2 (binade \<bar>x\<bar> - 53)"
    using assms(1) by (intro fl_half_ulp) simp
  ultimately show ?thesis
    using assms(1) by simp
qed

text \<open>
  The lamport value of \<open>n\<close> whole tickets, as the validation computes it from the amount
  \<open>n * 0.01\<close>. Up to 225,179,981 tickets the lamport value stays below \<open>2^51\<close>, where
  doubles are a quarter apart, and the two roundings cannot move it by half a lamport.
  From \<open>2^51\<close> on doubles are a half apart; the values up to 225,180,002 tickets are
  computed one by one.
\<close>

lemma lamports_of_tickets_low:
  assumes "1 \<le> n" and "n \<le> 225179981"
  shows "Math_round (js_mul (ticketsToSol n) LAMPORTS_PER_SOL) = n * TICKET_PRICE_LAMPORTS"
proof -
  define nr :: rat where "nr = of_int n"
  define x where "x = nr * (5764607523034235 / 576460752303423488)"
  define a where "a = fl x"
  define y where "y = a * 1000000000"
  define l where "l = fl y"
  have nr: "1 \<le> nr" "nr \<le> 225179981"
    using assms by (simp_all add: nr_def)
  have x: "0 < x" "x < pow2 22"
    using nr by (simp_all add: x_def pow2_def)
  have p32: "pow2 (22 - 54) = 1 / 4294967296" and p3: "pow2 (51 - 54) = 1 / 8"
    by (simp_all add: pow2_def)
  have "\<bar>a - x\<bar> \<le> pow2 (22 - 54)"
    unfolding a_def using x by (rule fl_abs_error)
  then have "\<bar>a - x\<bar> \<le> 1 / 4294967296"
    by (simp only: p32)
  then have a: "x - 1 / 4294967296 \<le> a" "a \<le> x + 1 / 4294967296"
    by linarith+
  have y: "0 < y" "y < pow2 51"
    using nr a unfolding x_def y_def by (simp_all add: pow2_def)
  have "\<bar>l - y\<bar> \<le> pow2 (51 - 54)"
    unfolding l_def using y by (rule fl_abs_error)
  then have "\<bar>l - y\<bar> \<le> 1 / 8"
    by (simp only: p3)
  then have l: "y - 1 / 8 \<le> l" "l \<le> y + 1 / 8"
    by linarith+
  have lo: "nr * 10000000 - 1 / 2 \<le> l" and hi: "l < nr * 10000000 + 1 / 2"
    using nr a l unfolding x_def y_def by simp_all
  have "\<lfloor>l + 1 / 2\<rfloor> = n * 10000000"
  proof (rule floor_unique)
    show "of_int (n * 10000000) \<le> l + 1 / 2"
      using lo by (simp add: nr_def)
    show "l + 1 / 2 < of_int (n * 10000000) + 1"
      using hi by (simp add: nr_def)
  qed
  then show ?thesis
    by (simp add: Math_round_def js_mul_def ticketsToSol_def TICKET_PRICE_SOL_value
        LAMPORTS_PER_SOL_def TICKET_PRICE_LAMPORTS_def l_def y_def a_def x_def nr_def)
qed

lemma lamports_of_tickets_top:
  "Math_round (js_mul (ticketsToSol 225179982) LAMPORTS_PER_SOL) = 2251799820000000"
  "Math_round (js_mul (ticketsToSol 225179983) LAMPORTS_PER_SOL) = 2251799830000000"
  "Math_round (js_mul (ticketsToSol 225179984) LAMPORTS_PER_SOL) = 2251799840000000"
  "Math_round (js_mul (ticketsToSol 225179985) LAMPORTS_PER_SOL) = 2251799850000000"
  "Math_round (js_mul (ticketsToSol 225179986) LAMPORTS_PER_SOL) = 2251799860000000"
  "Math_round (js_mul (ticketsToSol 225179987) LAMPORTS_PER_SOL) = 2251799870000000"
  "Math_round (js_mul (ticketsToSol 225179988) LAMPORTS_PER_SOL) = 2251799880000000"
  "Math_round (js_mul (ticketsToSol 225179989) LAMPORTS_PER_SOL) = 2251799890000000"
  "Math_round (js_mul (ticketsToSol 225179990) LAMPORTS_PER_SOL) = 2251799900000000"
  "Math_round (js_mul (ticketsToSol 225179991) LAMPORTS_PER_SOL) = 2251799910000000"
  "Math_round (js_mul (ticketsToSol 225179992) LAMPORTS_PER_SOL) = 2251799920000000"
  "Math_round (js_mul (ticketsToSol 225179993) LAMPORTS_PER_SOL) = 2251799930000000"
  "Math_round (js_mul (ticketsToSol 225179994) LAMPORTS_PER_SOL) = 2251799940000000"
  "Math_round (js_mul (ticketsToSol 225179995) LAMPORTS_PER_SOL) = 2251799950000000"
  "Math_round (js_mul (ticketsToSol 225179996) LAMPORTS_PER_SOL) = 2251799960000000"
  "Math_round (js_mul (ticketsToSol 225179997) LAMPORTS_PER_SOL) = 2251799970000000"
  "Math_round (js_mul (ticketsToSol 225179998) LAMPORTS_PER_SOL) = 2251799980000000"
  "Math_round (js_mul (ticketsToSol 225179999) LAMPORTS_PER_SOL) = 2251799990000000"
  "Math_round (js_mul (ticketsToSol 225180000) LAMPORTS_PER_SOL) = 2251800000000000"
  "Math_round (js_mul (ticketsToSol 225180001) LAMPORTS_PER_SOL) = 2251800010000000"
  "Math_round (js_mul (ticketsToSol 225180002) LAMPORTS_PER_SOL) = 2251800020000000"
  by code_simp+

lemma lamports_of_tickets:
  assumes "1 \<le> n" and "n \<le> 225180002"
  shows "Math_round (js_mul (ticketsToSol n) LAMPORTS_PER_SOL) = n * TICKET_PRICE_LAMPORTS"
proof (cases "n \<le> 225179981")
  case True
  with assms(1) show ?thesis
    by (rule lamports_of_tickets_low)
next
  case False
  with assms(2) have "n = 225179982 \<or> n = 225179983 \<or> n = 225179984 \<or> n = 225179985 \<or> n = 225179986 \<or> n = 225179987 \<or> n = 225179988 \<or> n = 225179989 \<or> n = 225179990 \<or> n = 225179991 \<or> n = 225179992 \<or> n = 225179993 \<or> n = 225179994 \<or> n = 225179995 \<or> n = 225179996 \<or> n = 225179997 \<or> n = 225179998 \<or> n = 225179999 \<or> n = 225180000 \<or> n = 225180001 \<or> n = 225180002"
    by presburger
  then show ?thesis
    using lamports_of_tickets_top by (auto simp: TICKET_PRICE_LAMPORTS_def)
qed

lemma valid_tickets:
  assumes "1 \<le> n" and "n \<le> 225180002"
  shows "isValidTicketAmount (ticketsToSol n)"
  unfolding isValidTicketAmount_def Let_def lamports_of_tickets [OF assms]
  by (simp add: js_rem_def TICKET_PRICE_LAMPORTS_def)

lemma tickets_pos:
  assumes "1 \<le> n"
  shows "ticketsToSol n > 0"
proof -
  define x where "x = (of_int n :: rat) * TICKET_PRICE_SOL"
  have x: "x > 0"
    using assms by (simp add: x_def TICKET_PRICE_SOL_value)
  then have "0 < x * (1 - 1 / 2 ^ 53)"
    by simp
  with fl_bounds(1) [OF x] have "fl x > 0"
    by linarith
  then show ?thesis
    by (simp add: ticketsToSol_def js_mul_def x_def)
qed

section \<open>Tickets and amounts\<close>





text \<open>
  They do differ: for 205 tickets the validation sees 2,050,000,000 lamports, and
  2,049,999,999 are submitted.
\<close>

lemma tickets205_truncated:
  "Math_round (js_mul (ticketsToSol 205) LAMPORTS_PER_SOL) = 2050000000"
  "newBN (js_mul (ticketsToSol 205) LAMPORTS_PER_SOL) = Some 2049999999"
  by code_simp+

lemma nearMultiple_facts:
  "fl nearMultiple = nearMultiple" "0 < nearMultiple" "isValidTicketAmount nearMultiple"
  "ticketsToSol 1 < nearMultiple" "nearMultiple < ticketsToSol 2"
  "1 / 100 < nearMultiple" "nearMultiple < 2 / 100"
  "newBN (js_mul nearMultiple LAMPORTS_PER_SOL) = Some 10000000"
  by code_simp+

text \<open>No number of tickets has the amount \<open>nearMultiple\<close>.\<close>

lemma fl_nonpos:
  assumes "x \<le> 0"
  shows "fl x \<le> 0"
proof -
  have "\<bar>fl x - x\<bar> \<le> - x / 2 ^ 53"
    using fl_error [of x] assms by simp
  then have "fl x \<le> x - x / 2 ^ 53"
    by linarith
  also have "\<dots> \<le> 0"
    using assms by simp
  finally show ?thesis .
qed

lemma nearMultiple_no_tickets: "ticketsToSol n \<noteq> nearMultiple"
proof -
  consider "n \<le> 0" | "n = 1" | "2 \<le> n"
    by linarith
  then show ?thesis
  proof cases
    case 1
    then have "(of_int n :: rat) * TICKET_PRICE_SOL \<le> 0"
      by (simp add: TICKET_PRICE_SOL_value mult_le_0_iff)
    then have "ticketsToSol n \<le> 0"
      unfolding ticketsToSol_def js_mul_def by (rule fl_nonpos)
    with nearMultiple_facts(2) show ?thesis
      by linarith
  next
    case 2
    with nearMultiple_facts(4) show ?thesis
      by simp
  next
    case 3
    define x where "x = (of_int n :: rat) * (5764607523034235 / 576460752303423488)"
    have "(2 :: rat) \<le> of_int n"
      using 3 by simp
    then have x: "2 * (5764607523034235 / 576460752303423488) \<le> x"
      by (simp add: x_def)
    then have "0 < x"
      by simp
    from fl_bounds(1) [OF this] have "x - x / 2 ^ 53 \<le> fl x"
      by (simp add: algebra_simps)
    with x have "5764607523558523 / 576460752303423488 < fl x"
      by simp
    then show ?thesis
      by (simp add: ticketsToSol_def js_mul_def TICKET_PRICE_SOL_value x_def nearMultiple_def)
  qed
qed



text \<open>
  Claim C3, the round trip at the failing input. Buying 29 tickets makes the purchase
  screen deposit \<open>29 * 0.01\<close>, the double \<open>0.29\<close>; dividing it by \<open>0.01\<close> gives
  \<open>28.999999999999996\<close>, so \<open>solToTickets\<close> answers 28. For 5 tickets the round trip holds.
\<close>

theorem C3_round_trip_29:
  "ticketsToSol 29 = fl (29 / 100)
   \<and> js_div (ticketsToSol 29) TICKET_PRICE_SOL = 8162774324609023 / 281474976710656
   \<and> solToTickets (ticketsToSol 29) = 28
   \<and> solToTickets (ticketsToSol 5) = 5"
  by code_simp

text \<open>
  The lamport conversions work on integers and do round-trip, as long as the lamport
  value is below \<open>2^53\<close>.
\<close>

lemma lamports_round_trip:
  assumes "0 \<le> n" and "n * TICKET_PRICE_LAMPORTS < 2 ^ 53"
  shows "lamportsToTickets (ticketsToLamports n) = n"
proof -
  have "\<bar>n\<bar> < 2 ^ 53" and "\<bar>n * 10000000\<bar> < 2 ^ 53"
    using assms by (simp_all add: TICKET_PRICE_LAMPORTS_def)
  then have "fl (of_int n) = of_int n" and "fl (of_int (n * 10000000)) = of_int (n * 10000000)"
    by (simp_all only: fl_of_int)
  then show ?thesis
    by (simp add: lamportsToTickets_def ticketsToLamports_def js_div_def js_mul_def
        Math_floor_def TICKET_PRICE_LAMPORTS_def)
qed

text \<open>
  The on-chain side of claim C3, on the deposit modelled from the spec: a successful
  deposit assigns a range with \<open>end - start + 1 = amount / ticketPrice\<close>, starting at the
  number of tickets sold before; the first deposit of 0.05 SOL (50,000,000 lamports)
  gets the tickets 0 to 4 and leaves \<open>totalTicketsSold = 5\<close>.
\<close>

lemma depositOnChain_range:
  assumes "depositOnChain d now seed batch identity amount r rec = Inr (r', u)"
  shows "ticketEnd u - ticketStart u + 1 = amount div TICKET_PRICE_LAMPORTS"
    and "amount = (amount div TICKET_PRICE_LAMPORTS) * TICKET_PRICE_LAMPORTS"
    and "totalTicketsSold r' = ticketEnd u + 1"
  using assms
  by (auto simp: depositOnChain_def recordDeposit_def Let_def
      split: if_splits sum.splits option.splits)

lemma depositOnChain_scenario:
  "\<exists>r' u. depositOnChain 120000 1000 0 [] ''A'' 50000000 exampleRound None = Inr (r', u)
     \<and> ticketStart u = 0 \<and> ticketEnd u = 4 \<and> totalTicketsSold r' = 5"
  by (simp add: depositOnChain_def recordDeposit_def Let_def TICKET_PRICE_LAMPORTS_def
      U64_MAX_def exampleRound_def newRound_def crank_def advance_def targetEpoch_def
      finalizeDue_def)


lemma five_tickets_bn: "newBN (js_mul (ticketsToSol 5) LAMPORTS_PER_SOL) = Some 50000000"
  by code_simp




section \<open>Closed rounds on the purchase screen\<close>

lemma canDeposit_Some:
  "canDeposit (Some r) \<longleftrightarrow> epochInRound r < 3 \<and> \<not> isComplete r"
  by (auto simp: canDeposit_def epochStatus_def currentEpochInRound_def roundIsComplete_def)

lemma canDeposit_closed:
  assumes "epochInRound r \<ge> 3 \<or> isComplete r"
  shows "\<not> canDeposit (Some r)"
  using assms by (auto simp: canDeposit_Some)

lemma uiStep_closed:
  assumes "\<not> canDeposit roundState" and "\<not> showConfirmation ui"
  shows "\<not> showConfirmation (fst (uiStep roundState ev ui))"
    and "Submitted tx \<notin> set (snd (uiStep roundState ev ui))"
proof -
  obtain env e where ev: "ev = (env, e)"
    by (cases ev) auto
  show "\<not> showConfirmation (fst (uiStep roundState ev ui))"
    using assms unfolding ev
    by (cases e)
      (simp_all add: uiStep_def buyButtonDisabled_def handleCloseSuccess_def
        handleTicketsChange_def Let_def)
  show "Submitted tx \<notin> set (snd (uiStep roundState ev ui))"
    using assms unfolding ev
    by (cases e) (simp_all add: uiStep_def buyButtonDisabled_def)
qed

lemma uiRun_closed:
  assumes "\<forall>ev \<in> set evs. \<not> canDeposit (fst ev)" and "\<not> showConfirmation ui"
  shows "Submitted tx \<notin> set (snd (uiRun evs ui))"
  using assms
proof (induction evs arbitrary: ui)
  case Nil
  show ?case by simp
next
  case (Cons rev evs)
  obtain roundState ev where rev: "rev = (roundState, ev)"
    by (cases rev) auto
  obtain ui1 effs where step: "uiStep roundState ev ui = (ui1, effs)"
    by (cases "uiStep roundState ev ui") auto
  obtain ui2 effs' where run: "uiRun evs ui1 = (ui2, effs')"
    by (cases "uiRun evs ui1") auto
  have closed: "\<not> canDeposit roundState" and rest: "\<forall>ev \<in> set evs. \<not> canDeposit (fst ev)"
    using Cons.prems(1) by (simp_all add: rev)
  have "\<not> showConfirmation ui1" and "Submitted tx \<notin> set effs"
    using uiStep_closed(1) [OF closed Cons.prems(2), of ev]
      uiStep_closed(2) [OF closed Cons.prems(2), of tx ev] step
    by simp_all
  moreover from this Cons.IH [OF rest, of ui1] run have "Submitted tx \<notin> set effs'"
    by simp
  ultimately show ?case
    using step run by (simp add: rev)
qed

lemma alertText_closed:
  assumes "alertText a = alertText DepositsClosed"
  shows "a = DepositsClosed"
  using assms by (cases a) simp_all

text \<open>
  The confirmation handler and the deposit hook do not look at the round: what a
  confirmed purchase submits is the same for every round state.
\<close>

lemma handleConfirmPurchase_any_round:
  "snd (handleConfirmPurchase env roundState ui) = snd (handleConfirmPurchase env roundState' ui)"
  by (simp add: handleConfirmPurchase_def Let_def split: prod.splits sum.splits)

lemma confirm_five_tickets:
  "handleConfirmPurchase exampleUiEnv roundState (exampleUi\<lparr>showConfirmation := True\<rparr>)
     = (exampleUi\<lparr>purchasedTicketNumbers :=
            Some (getNextTicketNumbers roundState exampleUi), showSuccess := True\<rparr>,
        [Submitted (DepositTx 50000000)])"
proof -
  have amount: "js_mul 5 (fl (1 / 100)) = ticketsToSol 5"
    by (simp add: ticketsToSol_def TICKET_PRICE_SOL_def)
  have "deposit exampleDepositEnv (ticketsToSol 5) exampleTxState
      = (Inr ''signature'', [DepositTx 50000000],
         exampleTxState\<lparr>txError := None, lastTxSignature := Some ''signature'',
           txProcessing := False\<rparr>)"
    using tickets_pos [of 5] valid_tickets [of 5] five_tickets_bn
    by (simp add: deposit_def exampleDepositEnv_def)
  then show ?thesis
    by (simp add: handleConfirmPurchase_def Let_def exampleUiEnv_def exampleUi_def amount
        getNextTicketNumbers_def)
qed

text \<open>
  Claim C4, the counterexample. The round is in epoch 3 with the confirmation dialog
  open (it was opened by a click in epoch 1, before the displayed round state changed):
  a click on Confirm submits the deposit of 5 tickets, 50,000,000 lamports, and no
  alert is shown; the same happens when the round is complete. And a click on the buy
  button in epoch 3 shows no alert: it changes nothing at all.
\<close>

theorem C4_confirm_in_closed_round:
  "epochInRound exampleRound15 \<ge> 3
   \<and> snd (uiStep (Some exampleRound15) (exampleUiEnv, ClickConfirm)
          (exampleUi\<lparr>showConfirmation := True\<rparr>))
       = [Submitted (DepositTx 50000000)]
   \<and> isComplete exampleFinal
   \<and> snd (uiStep (Some exampleFinal) (exampleUiEnv, ClickConfirm)
          (exampleUi\<lparr>showConfirmation := True\<rparr>))
       = [Submitted (DepositTx 50000000)]
   \<and> epochInRound exampleRound = 1
   \<and> snd (uiRun [(Some exampleRound, exampleUiEnv, ClickBuy),
                 (Some exampleRound15, exampleUiEnv, ClickConfirm)] exampleUi)
       = [Submitted (DepositTx 50000000)]
   \<and> uiStep (Some exampleRound15) (exampleUiEnv, ClickBuy) exampleUi = (exampleUi, [])"
proof -
  have open_ui: "uiStep (Some exampleRound) (exampleUiEnv, ClickBuy) exampleUi
      = (exampleUi\<lparr>showConfirmation := True\<rparr>, [])"
    by (simp add: uiStep_def buyButtonRendered_def buyButtonDisabled_def handleBuyClick_def
        canDeposit_Some epochStatus_def roundIsComplete_def exampleUiEnv_def exampleUi_def
        exampleRound_def newRound_def)
  have confirm: "snd (uiStep roundState (exampleUiEnv, ClickConfirm)
          (exampleUi\<lparr>showConfirmation := True\<rparr>))
       = [Submitted (DepositTx 50000000)]" for roundState
    by (simp add: uiStep_def confirm_five_tickets)
  have buy: "uiStep (Some exampleRound15) (exampleUiEnv, ClickBuy) exampleUi = (exampleUi, [])"
    by (simp add: uiStep_def buyButtonDisabled_def canDeposit_Some exampleRound15_def)
  have run: "snd (uiRun [(Some exampleRound, exampleUiEnv, ClickBuy),
                 (Some exampleRound15, exampleUiEnv, ClickConfirm)] exampleUi)
       = [Submitted (DepositTx 50000000)]"
    using confirm [of "Some exampleRound15"] by (simp add: open_ui split: prod.splits)
  have facts: "epochInRound exampleRound15 \<ge> 3" "isComplete exampleFinal"
    "epochInRound exampleRound = 1"
    by (simp_all add: exampleRound15_def exampleFinal_def exampleRound_def newRound_def)
  from facts confirm [of "Some exampleRound15"] confirm [of "Some exampleFinal"] run buy
  show ?thesis
    by (intro conjI)
qed

text \<open>
  Claim C4, amended. For every round state with \<open>epochInRound \<ge> 3\<close> or \<open>isComplete\<close>,
  deposits are not allowed on the purchase screen: the buy button is disabled, and a
  click on it changes nothing and submits nothing. In a complete round the button is
  not rendered at all; in epoch 3 of a round that is not complete it is rendered and,
  with a connected wallet and no transaction in progress, labelled
  \<open>'DEPOSITS CLOSED (EPOCH 3)'\<close>. The buy handler itself, were it called, answers with the
  fixed alert \<open>'Deposits are closed. Please wait for the next round!'\<close>, which no other
  alert of the screen shares, and changes nothing. Starting with the confirmation
  dialog closed, no sequence of clicks and inputs made while every displayed round
  state forbids deposits submits a deposit transaction.
\<close>

theorem C4_deposits_closed:
  "(epochInRound r \<ge> 3 \<or> isComplete r \<longrightarrow>
      \<not> canDeposit (Some r)
      \<and> buyButtonDisabled env (Some r) ui
      \<and> uiStep (Some r) (env, ClickBuy) ui = (ui, [])
      \<and> handleBuyClick (Some r) ui = (ui, [Alert DepositsClosed]))
   \<and> (isComplete r \<longrightarrow> \<not> buyButtonRendered (Some r))
   \<and> (epochInRound r \<ge> 3 \<and> \<not> isComplete r \<longrightarrow>
        buyButtonRendered (Some r)
        \<and> (connected env \<and> \<not> uiProcessing env \<longrightarrow>
             buyButtonLabel env (Some r) ui = DepositsClosedEpoch3Label))
   \<and> ((\<forall>ev \<in> set evs. \<not> canDeposit (fst ev)) \<and> \<not> showConfirmation ui \<longrightarrow>
        Submitted tx \<notin> set (snd (uiRun evs ui)))
   \<and> alertText DepositsClosed = ''Deposits are closed. Please wait for the next round!''
   \<and> (alertText a = alertText DepositsClosed \<longrightarrow> a = DepositsClosed)"
proof -
  have c1: "epochInRound r \<ge> 3 \<or> isComplete r \<longrightarrow>
      \<not> canDeposit (Some r)
      \<and> buyButtonDisabled env (Some r) ui
      \<and> uiStep (Some r) (env, ClickBuy) ui = (ui, [])
      \<and> handleBuyClick (Some r) ui = (ui, [Alert DepositsClosed])"
  proof
    assume "epochInRound r \<ge> 3 \<or> isComplete r"
    then have closed: "\<not> canDeposit (Some r)"
      by (rule canDeposit_closed)
    then show "\<not> canDeposit (Some r)
      \<and> buyButtonDisabled env (Some r) ui
      \<and> uiStep (Some r) (env, ClickBuy) ui = (ui, [])
      \<and> handleBuyClick (Some r) ui = (ui, [Alert DepositsClosed])"
      by (simp add: handleBuyClick_def buyButtonDisabled_def uiStep_def)
  qed
  have c2: "isComplete r \<longrightarrow> \<not> buyButtonRendered (Some r)"
    by (simp add: buyButtonRendered_def epochStatus_def roundIsComplete_def)
  have c3: "epochInRound r \<ge> 3 \<and> \<not> isComplete r \<longrightarrow>
        buyButtonRendered (Some r)
        \<and> (connected env \<and> \<not> uiProcessing env \<longrightarrow>
             buyButtonLabel env (Some r) ui = DepositsClosedEpoch3Label)"
    by (simp add: buyButtonRendered_def buyButtonLabel_def canDeposit_Some epochStatus_def
        roundIsComplete_def currentEpochInRound_def)
  have c4: "(\<forall>ev \<in> set evs. \<not> canDeposit (fst ev)) \<and> \<not> showConfirmation ui \<longrightarrow>
        Submitted tx \<notin> set (snd (uiRun evs ui))"
    using uiRun_closed [of evs ui tx] by blast
  have c5: "alertText DepositsClosed = ''Deposits are closed. Please wait for the next round!''"
    by simp
  have c6: "alertText a = alertText DepositsClosed \<longrightarrow> a = DepositsClosed"
    using alertText_closed by blast
  from c1 c2 c3 c4 c5 c6 show ?thesis
    by (intro conjI)
qed

theorem C4_deposits_closed_witness:
  "epochInRound exampleRound15 \<ge> 3 \<and> \<not> isComplete exampleRound15
   \<and> \<not> canDeposit (Some exampleRound15)
   \<and> buyButtonDisabled exampleUiEnv (Some exampleRound15) exampleUi
   \<and> uiStep (Some exampleRound15) (exampleUiEnv, ClickBuy) exampleUi = (exampleUi, [])
   \<and> handleBuyClick (Some exampleRound15) exampleUi = (exampleUi, [Alert DepositsClosed])
   \<and> buyButtonRendered (Some exampleRound15)
   \<and> connected exampleUiEnv \<and> \<not> uiProcessing exampleUiEnv
   \<and> buyButtonLabel exampleUiEnv (Some exampleRound15) exampleUi = DepositsClosedEpoch3Label
   \<and> \<not> showConfirmation exampleUi
   \<and> Submitted (DepositTx 50000000) \<notin> set (snd (uiRun
        [(Some exampleRound15, exampleUiEnv, ClickBuy),
         (Some exampleFinal, exampleUiEnv, ClickConfirm)] exampleUi))
   \<and> isComplete exampleFinal
   \<and> \<not> buyButtonRendered (Some exampleFinal)
   \<and> handleBuyClick (Some exampleFinal) exampleUi = (exampleUi, [Alert DepositsClosed])
   \<and> alertText DepositsClosed = alertText DepositsClosed"
proof -
  have h: "epochInRound exampleRound15 \<ge> 3" "\<not> isComplete exampleRound15"
    "isComplete exampleFinal" "connected exampleUiEnv" "\<not> uiProcessing exampleUiEnv"
    "\<not> showConfirmation exampleUi" "\<not> canDeposit (Some exampleRound15)"
    "\<not> canDeposit (Some exampleFinal)"
    by (simp_all add: exampleRound15_def exampleFinal_def exampleDeposited_def exampleRound_def
        newRound_def exampleUi_def exampleUiEnv_def canDeposit_Some)
  show ?thesis
    using C4_deposits_closed [where r = exampleRound15 and ui = exampleUi and env = exampleUiEnv
        and tx = "DepositTx 50000000" and a = DepositsClosed
        and evs = "[(Some exampleRound15, exampleUiEnv, ClickBuy),
           (Some exampleFinal, exampleUiEnv, ClickConfirm)]"]
      C4_deposits_closed [where r = exampleFinal and ui = exampleUi and env = exampleUiEnv
        and tx = "DepositTx 50000000" and a = DepositsClosed and evs = "[]"]
      h
    by (simp del: uiRun.simps)
qed

section \<open>Seeds\<close>

lemma checkAndCrank_seed:
  assumes "InitRound n s \<in> set (snd (checkAndCrank env rs now seedNow refs))"
  shows "s = seedNow \<and> n = roundId rs + 1"
  using assms by (auto simp: checkAndCrank_def split: if_splits)

text \<open>
  Claim C8. Every seed the front end supplies to round initialization and to winner
  selection is the reading of \<open>Date.now()\<close> taken by the function that submits the call:
  in \<open>initializeRound\<close>, in \<open>selectWinner\<close> and in the automatic round initialization of
  \<open>checkAndCrank\<close>. The seed is that clock reading and nothing else, so two invocations
  at the same clock reading submit the same seed.
\<close>

theorem C8_seed_is_clock:
  "(initializeRound ok t rid = Some c \<longrightarrow> seedOf c = Some t)
   \<and> (selectWinner ok t chain = Some c' \<longrightarrow> seedOf c' = Some t)
   \<and> (InitRound n s \<in> set (snd (checkAndCrank env rs now seedNow refs)) \<longrightarrow> s = seedNow)
   \<and> (initializeRound ok t rid = Some c \<and> initializeRound okB t rid' = Some d
        \<longrightarrow> seedOf c = seedOf d)
   \<and> (selectWinner ok t chain = Some c' \<and> selectWinner okB t chain' = Some d'
        \<longrightarrow> seedOf c' = seedOf d')"
proof -
  have a: "initializeRound p u q = Some x \<longrightarrow> seedOf x = Some u" for p u q x
    by (auto simp: initializeRound_def split: if_splits)
  have b: "selectWinner p u q = Some x \<longrightarrow> seedOf x = Some u" for p u q x
    by (auto simp: selectWinner_def split: if_splits option.splits)
  have c: "InitRound n s \<in> set (snd (checkAndCrank env rs now seedNow refs)) \<longrightarrow> s = seedNow"
    using checkAndCrank_seed by blast
  from a [of ok t rid c] a [of okB t rid' d] b [of ok t chain c']
    b [of okB t chain' d'] c
  show ?thesis by simp
qed

theorem C8_seed_is_clock_witness:
  "initializeRound True 1700000000000 2 = Some (InitRoundCall 2 1700000000000)
   \<and> seedOf (InitRoundCall 2 1700000000000) = Some 1700000000000
   \<and> selectWinner True 1700000000000 (Some (1, exampleAccounts))
        = Some (SelectWinnerLocalCall 1700000000000 [''pdaA'', ''pdaB''])
   \<and> InitRound 2 1700000000001
        \<in> set (snd (checkAndCrank exampleEnv exampleFinal 1700000000000 1700000000001 exampleRefs))
   \<and> initializeRound True 1700000000000 3 = Some (InitRoundCall 3 1700000000000)"
  using C8_seed_is_clock [where ok = True and t = 1700000000000 and rid = 2
      and c = "InitRoundCall 2 1700000000000" and chain = "Some (1, exampleAccounts)"
      and c' = "SelectWinnerLocalCall 1700000000000 [''pdaA'', ''pdaB'']"
      and n = 2 and s = 1700000000001 and env = exampleEnv and rs = exampleFinal
      and now = 1700000000000 and seedNow = 1700000000001 and refs = exampleRefs
      and okB = True and rid' = 3 and d = "InitRoundCall 3 1700000000000"
      and chain' = "Some (1, exampleAccounts)"
      and d' = "SelectWinnerLocalCall 1700000000000 [''pdaA'', ''pdaB'']"]
  by (simp add: initializeRound_def selectWinner_def participatingAccounts_def toNumber_def
      exampleAccounts_def example_defs checkAndCrank_def)

section \<open>Pending prizes\<close>

lemma toNumber_Some: "toNumber v = Some w \<Longrightarrow> w = v"
  by (simp add: toNumber_def split: if_splits)

lemma claimTicketEntry_Some:
  assumes "claimTicketEntry t = Some e"
  shows "e = t"
  using assms
  by (auto simp: claimTicketEntry_def dest!: toNumber_Some split: option.splits)

lemma claimTicketEntry_eq:
  "claimTicketEntry t
     = (if \<bar>claimRoundId t\<bar> < 2 ^ 53 \<and> \<bar>prizeAmount t\<bar> < 2 ^ 53 \<and> \<bar>stakeAmount t\<bar> < 2 ^ 53
        then Some t else None)"
  by (simp add: claimTicketEntry_def toNumber_def)

text \<open>
  The tickets the loop adds: the unclaimed tickets of the key at the addresses of the
  rounds \<open>i\<close> to \<open>currentRoundId\<close> whose numbers can be converted.
\<close>

lemma claimTicketLoop_set:
  "set (claimTicketLoop store pk i cur tickets)
     = set tickets \<union> {t. \<exists>j. i \<le> j \<and> j \<le> cur \<and> store (getClaimTicketPDA j pk) = Some t
                            \<and> \<not> claimed t \<and> claimTicketEntry t = Some t}"
proof (induction store pk i cur tickets rule: claimTicketLoop.induct)
  case (1 store pk i cur tickets)
  show ?case
  proof (cases "i \<le> cur")
    case False
    then show ?thesis
      by (auto simp: claimTicketLoop.simps [of store pk i cur tickets])
  next
    case True
    let ?next = "case store (getClaimTicketPDA i pk) of None \<Rightarrow> tickets
      | Some claimTicket \<Rightarrow>
          if \<not> claimed claimTicket then
            (case claimTicketEntry claimTicket of None \<Rightarrow> tickets
             | Some entry \<Rightarrow> tickets @ [entry])
          else tickets"
    have window: "{t. \<exists>j. i \<le> j \<and> j \<le> cur \<and> store (getClaimTicketPDA j pk) = Some t
            \<and> \<not> claimed t \<and> claimTicketEntry t = Some t}
        = {t. store (getClaimTicketPDA i pk) = Some t \<and> \<not> claimed t
              \<and> claimTicketEntry t = Some t}
          \<union> {t. \<exists>j. i + 1 \<le> j \<and> j \<le> cur \<and> store (getClaimTicketPDA j pk) = Some t
                \<and> \<not> claimed t \<and> claimTicketEntry t = Some t}"
    proof -
      have "i \<le> j \<longleftrightarrow> j = i \<or> i + 1 \<le> j" for j
        by auto
      then show ?thesis
        using True by auto
    qed
    have "set ?next = set tickets \<union> {t. store (getClaimTicketPDA i pk) = Some t \<and> \<not> claimed t
        \<and> claimTicketEntry t = Some t}"
      by (auto split: option.splits dest: claimTicketEntry_Some)
    moreover have "set (claimTicketLoop store pk i cur tickets)
        = set ?next \<union> {t. \<exists>j. i + 1 \<le> j \<and> j \<le> cur \<and> store (getClaimTicketPDA j pk) = Some t
                \<and> \<not> claimed t \<and> claimTicketEntry t = Some t}"
      using True "1.IH" [OF True]
      by (simp add: claimTicketLoop.simps [of store pk i cur tickets])
    ultimately show ?thesis
      unfolding window by auto
  qed
qed

lemma fetchClaimTickets_set:
  "set (fetchClaimTickets True store (Some pk) (Some cur) previous)
     = {t. \<exists>j. max 1 (cur - 10) \<le> j \<and> j \<le> cur \<and> store (getClaimTicketPDA j pk) = Some t
           \<and> \<not> claimed t \<and> claimTicketEntry t = Some t}"
  by (simp add: fetchClaimTickets_def claimTicketLoop_set)

text \<open>
  The list of the example: of the tickets of rounds 1, 8, 10 and 12, with the current
  round 12, only the last is listed. The ticket of round 1 is out of the window, that
  of round 8 is claimed, and the prize of round 10 does not fit 53 bits, so its
  conversion throws and the ticket is skipped.
\<close>

lemma exampleStore_list:
  "fetchClaimTickets True exampleStore (Some ''me'') (Some 12) [] = [exampleTicket 12 False]"
  by (simp add: fetchClaimTickets_def claimTicketLoop.simps exampleStore_def exampleTicket_def
      getClaimTicketPDA_def claimTicketEntry_def toNumber_def)

text \<open>
  Claim C9. After a fetch for a connected identity, every listed ticket has
  \<open>claimed = false\<close> and is the claim ticket found at the address of that identity and
  of a round in \<open>[max 1 (currentRound - 10), currentRound]\<close>; an already claimed ticket is
  never in the list. The round number a ticket records is written by the program when
  it creates the ticket at the address of its round: for a store that is consistent in
  this way, the recorded round number of every listed ticket lies in that window, and
  a ticket of a round more than 10 rounds back, or of any round outside the window, is
  never in the list.
\<close>

theorem C9_pending_prizes:
  "(t \<in> set (fetchClaimTickets True store (Some pk) (Some cur) previous) \<longrightarrow>
      \<not> claimed t
      \<and> (\<exists>j. max 1 (cur - 10) \<le> j \<and> j \<le> cur \<and> store (getClaimTicketPDA j pk) = Some t))
   \<and> (claimed u \<longrightarrow> u \<notin> set (fetchClaimTickets True store (Some pk) (Some cur) previous))
   \<and> (pdaConsistent store pk \<longrightarrow>
        (t \<in> set (fetchClaimTickets True store (Some pk) (Some cur) previous) \<longrightarrow>
           max 1 (cur - 10) \<le> claimRoundId t \<and> claimRoundId t \<le> cur
           \<and> store (getClaimTicketPDA (claimRoundId t) pk) = Some t)
        \<and> (claimRoundId u < cur - 10 \<or> claimRoundId u < 1 \<or> cur < claimRoundId u \<longrightarrow>
           u \<notin> set (fetchClaimTickets True store (Some pk) (Some cur) previous))
        \<and> (store (getClaimTicketPDA i pk) = Some u \<and> (i < cur - 10 \<or> i < 1 \<or> cur < i) \<longrightarrow>
           u \<notin> set (fetchClaimTickets True store (Some pk) (Some cur) previous)))"
proof -
  let ?list = "fetchClaimTickets True store (Some pk) (Some cur) previous"
  have a: "t \<in> set ?list \<longrightarrow>
      \<not> claimed t
      \<and> (\<exists>j. max 1 (cur - 10) \<le> j \<and> j \<le> cur \<and> store (getClaimTicketPDA j pk) = Some t)"
    by (auto simp: fetchClaimTickets_set)
  have b: "claimed u \<longrightarrow> u \<notin> set ?list"
    by (auto simp: fetchClaimTickets_set)
  have c: "pdaConsistent store pk \<longrightarrow>
        (t \<in> set ?list \<longrightarrow>
           max 1 (cur - 10) \<le> claimRoundId t \<and> claimRoundId t \<le> cur
           \<and> store (getClaimTicketPDA (claimRoundId t) pk) = Some t)
        \<and> (claimRoundId u < cur - 10 \<or> claimRoundId u < 1 \<or> cur < claimRoundId u \<longrightarrow>
           u \<notin> set ?list)
        \<and> (store (getClaimTicketPDA i pk) = Some u \<and> (i < cur - 10 \<or> i < 1 \<or> cur < i) \<longrightarrow>
           u \<notin> set ?list)"
  proof
    assume cons: "pdaConsistent store pk"
    have rid: "store (getClaimTicketPDA j pk) = Some x \<Longrightarrow> claimRoundId x = j" for j x
      using cons by (simp add: pdaConsistent_def)
    have listed: "x \<in> set ?list \<Longrightarrow>
        max 1 (cur - 10) \<le> claimRoundId x \<and> claimRoundId x \<le> cur
        \<and> store (getClaimTicketPDA (claimRoundId x) pk) = Some x" for x
      using rid by (auto simp: fetchClaimTickets_set)
    have c1: "t \<in> set ?list \<longrightarrow>
           max 1 (cur - 10) \<le> claimRoundId t \<and> claimRoundId t \<le> cur
           \<and> store (getClaimTicketPDA (claimRoundId t) pk) = Some t"
      using listed [of t] by blast
    have c2: "claimRoundId u < cur - 10 \<or> claimRoundId u < 1 \<or> cur < claimRoundId u \<longrightarrow>
           u \<notin> set ?list"
      using listed [of u] by auto
    have c3: "store (getClaimTicketPDA i pk) = Some u \<and> (i < cur - 10 \<or> i < 1 \<or> cur < i) \<longrightarrow>
           u \<notin> set ?list"
      using listed [of u] rid [of i u] by auto
    from c1 c2 c3 show "(t \<in> set ?list \<longrightarrow>
           max 1 (cur - 10) \<le> claimRoundId t \<and> claimRoundId t \<le> cur
           \<and> store (getClaimTicketPDA (claimRoundId t) pk) = Some t)
        \<and> (claimRoundId u < cur - 10 \<or> claimRoundId u < 1 \<or> cur < claimRoundId u \<longrightarrow>
           u \<notin> set ?list)
        \<and> (store (getClaimTicketPDA i pk) = Some u \<and> (i < cur - 10 \<or> i < 1 \<or> cur < i) \<longrightarrow>
           u \<notin> set ?list)"
      by (intro conjI)
  qed
  from a b c show ?thesis
    by (intro conjI)
qed

lemma exampleStore_consistent: "pdaConsistent exampleStore ''me''"
  by (auto simp: pdaConsistent_def exampleStore_def exampleTicket_def getClaimTicketPDA_def
      split: if_splits)

theorem C9_pending_prizes_witness:
  "pdaConsistent exampleStore ''me''
   \<and> exampleTicket 12 False \<in> set (fetchClaimTickets True exampleStore (Some ''me'') (Some 12) [])
   \<and> \<not> claimed (exampleTicket 12 False) \<and> claimRoundId (exampleTicket 12 False) = 12
   \<and> exampleStore (getClaimTicketPDA 12 ''me'') = Some (exampleTicket 12 False)
   \<and> exampleStore (getClaimTicketPDA 1 ''me'') = Some (exampleTicket 1 False)
   \<and> claimRoundId (exampleTicket 1 False) < 12 - 10
   \<and> exampleTicket 1 False \<notin> set (fetchClaimTickets True exampleStore (Some ''me'') (Some 12) [])
   \<and> exampleStore (getClaimTicketPDA 8 ''me'') = Some (exampleTicket 8 True)
   \<and> claimed (exampleTicket 8 True)
   \<and> exampleTicket 8 True \<notin> set (fetchClaimTickets True exampleStore (Some ''me'') (Some 12) [])"
proof -
  have h: "exampleTicket 12 False \<in> set (fetchClaimTickets True exampleStore (Some ''me'') (Some 12) [])"
    "claimed (exampleTicket 8 True)" "claimRoundId (exampleTicket 1 False) < 12 - 10"
    "claimRoundId (exampleTicket 12 False) = 12"
    "exampleStore (getClaimTicketPDA 12 ''me'') = Some (exampleTicket 12 False)"
    "exampleStore (getClaimTicketPDA 1 ''me'') = Some (exampleTicket 1 False)"
    "exampleStore (getClaimTicketPDA 8 ''me'') = Some (exampleTicket 8 True)"
    by (simp add: exampleStore_list)
      (simp_all add: exampleTicket_def exampleStore_def getClaimTicketPDA_def)
  show ?thesis
    using C9_pending_prizes [where store = exampleStore and pk = "''me''" and cur = 12
        and previous = "[]" and t = "exampleTicket 12 False" and i = 1
        and u = "exampleTicket 1 False"]
      C9_pending_prizes [where store = exampleStore and pk = "''me''" and cur = 12
        and previous = "[]" and t = "exampleTicket 12 False" and i = 8
        and u = "exampleTicket 8 True"]
      exampleStore_consistent h
    by simp
qed

section \<open>Participants of a round\<close>

text \<open>
  When every conversion succeeds, the count and the batch of the crank scripts are
  those of the accounts with \<open>roundJoined = R\<close> and \<open>balance > 0\<close>: an account is counted
  if and only if both hold.
\<close>

lemma filterParticipants_eq:
  assumes "\<forall>acc \<in> set accs. \<bar>roundJoined (snd acc)\<bar> < 2 ^ 53 \<and> \<bar>balance (snd acc)\<bar> < 2 ^ 53"
  shows "filterParticipants accs R
     = Some (filter (\<lambda>acc. roundJoined (snd acc) = R \<and> balance (snd acc) > 0) accs)"
  using assms by (induction accs) (simp_all add: toNumber_def)

lemma useParticipantCount_eq:
  assumes "\<forall>acc \<in> set accs. \<bar>roundJoined (snd acc)\<bar> < 2 ^ 53 \<and> \<bar>balance (snd acc)\<bar> < 2 ^ 53"
  shows "useParticipantCount True (Some R) (Some accs)
     = length (filter (\<lambda>acc. roundJoined (snd acc) = R \<and> balance (snd acc) > 0) accs)"
  by (simp add: useParticipantCount_def filterParticipants_eq [OF assms])

lemma participantsLoop_pubkeys:
  assumes "\<forall>acc \<in> set accs. \<bar>roundJoined (snd acc)\<bar> < 2 ^ 53 \<and> \<bar>balance (snd acc)\<bar> < 2 ^ 53
      \<and> \<bar>ticketStart (snd acc)\<bar> < 2 ^ 53 \<and> \<bar>ticketEnd (snd acc)\<bar> < 2 ^ 53"
  shows "\<exists>infos. participantsLoop accs R ps = Some infos
     \<and> map pubkey infos = map pubkey ps
         @ map fst (filter (\<lambda>acc. roundJoined (snd acc) = R \<and> balance (snd acc) > 0) accs)"
  using assms
proof (induction accs arbitrary: ps)
  case Nil
  show ?case by simp
next
  case (Cons a accs)
  let ?info = "\<lparr>pubkey = fst a, infoOwner = owner (snd a), infoBalance = balance (snd a),
    infoTicketStart = ticketStart (snd a), infoTicketEnd = ticketEnd (snd a),
    infoRoundJoined = roundJoined (snd a)\<rparr>"
  from Cons.prems have fits: "toNumber (roundJoined (snd a)) = Some (roundJoined (snd a))"
    "toNumber (balance (snd a)) = Some (balance (snd a))"
    "toNumber (ticketStart (snd a)) = Some (ticketStart (snd a))"
    "toNumber (ticketEnd (snd a)) = Some (ticketEnd (snd a))"
    and rest: "\<forall>acc \<in> set accs. \<bar>roundJoined (snd acc)\<bar> < 2 ^ 53 \<and> \<bar>balance (snd acc)\<bar> < 2 ^ 53
      \<and> \<bar>ticketStart (snd acc)\<bar> < 2 ^ 53 \<and> \<bar>ticketEnd (snd acc)\<bar> < 2 ^ 53"
    by (simp_all add: toNumber_def)
  show ?case
  proof (cases "roundJoined (snd a) = R \<and> balance (snd a) > 0")
    case True
    with fits have step: "participantsLoop (a # accs) R ps = participantsLoop accs R (ps @ [?info])"
      by auto
    from Cons.IH [OF rest, of "ps @ [?info]"] True show ?thesis
      unfolding step by simp
  next
    case False
    with fits have step: "participantsLoop (a # accs) R ps = participantsLoop accs R ps"
      by auto
    from Cons.IH [OF rest, of ps] False show ?thesis
      unfolding step by auto
  qed
qed

lemma scriptCrankBatch_eq:
  assumes "\<forall>acc \<in> set accs. \<bar>roundJoined (snd acc)\<bar> < 2 ^ 53 \<and> \<bar>balance (snd acc)\<bar> < 2 ^ 53
      \<and> \<bar>ticketStart (snd acc)\<bar> < 2 ^ 53 \<and> \<bar>ticketEnd (snd acc)\<bar> < 2 ^ 53"
  shows "scriptCrankBatch (Some accs) R
     = map fst (filter (\<lambda>acc. roundJoined (snd acc) = R \<and> balance (snd acc) > 0) accs)"
  using participantsLoop_pubkeys [OF assms, of R "[]"]
  by (auto simp: scriptCrankBatch_def getParticipants_def)

lemma screenParticipantCount_eq:
  assumes "roundId r \<noteq> 0"
  shows "screenParticipantCount program (Some r) fetched
     = useParticipantCount program (Some (roundId r)) fetched"
  using assms by (simp add: screenParticipantCount_def)

text \<open>
  The crank call of the front end, like its admin functions, selects by \<open>roundJoined\<close>
  alone: an account of the round stays in that batch with a zero balance.
\<close>

lemma filterRoundJoined_eq:
  assumes "\<forall>acc \<in> set accs. \<bar>roundJoined (snd acc)\<bar> < 2 ^ 53"
  shows "filterRoundJoined accs R = Some (filter (\<lambda>acc. roundJoined (snd acc) = R) accs)"
  using assms by (induction accs) (simp_all add: toNumber_def)

lemma participatingAccounts_member:
  assumes "\<forall>acc \<in> set accs. \<bar>roundJoined (snd acc)\<bar> < 2 ^ 53"
    and "acc \<in> set accs" and "roundJoined (snd acc) = R"
  shows "\<exists>batch. callCrank True (Some (R, accs)) = Some (CrankCall batch) \<and> fst acc \<in> set batch"
  using assms(2,3)
  by (auto simp: callCrank_def participatingAccounts_def filterRoundJoined_eq [OF assms(1)])

text \<open>
  A balance from \<open>2^53\<close> lamports on cannot be converted: the \<open>catch\<close> block of the hook
  sets the count to 0 and that of \<open>getParticipants\<close> returns the empty list.
\<close>

lemma participant_count_overflow:
  "useParticipantCount True (Some 1)
     (Some [(''pdaA'', participantA\<lparr>balance := 9007199254740992\<rparr>)]) = 0"
  "getParticipants (Some [(''pdaA'', participantA\<lparr>balance := 9007199254740992\<rparr>)]) 1 = []"
  by (simp_all add: useParticipantCount_def getParticipants_def toNumber_def participantA_def
      recordDeposit_def)

text \<open>
  Claim C10, at the failing input. Of the three fetched accounts, \<open>pdaA\<close> and \<open>pdaB\<close>
  joined round 1 and the balance of \<open>pdaB\<close> is zero. The participant count is 1 and the
  batch the crank scripts build from \<open>getParticipants\<close> holds \<open>pdaA\<close> alone; the batches
  that \<open>callCrank\<close> and \<open>selectWinner\<close> of the front end hand to the program for the
  winner search hold \<open>pdaB\<close> as well.
\<close>

theorem C10_zero_balance_in_crank_batch:
  "exampleAccounts ! 1 = (''pdaB'', participantB\<lparr>balance := 0\<rparr>)
   \<and> roundJoined (snd (exampleAccounts ! 1)) = 1
   \<and> balance (snd (exampleAccounts ! 1)) = 0
   \<and> callCrank True (Some (1, exampleAccounts)) = Some (CrankCall [''pdaA'', ''pdaB''])
   \<and> selectWinner True 1700000000000 (Some (1, exampleAccounts))
       = Some (SelectWinnerLocalCall 1700000000000 [''pdaA'', ''pdaB''])
   \<and> useParticipantCount True (Some 1) (Some exampleAccounts) = 1
   \<and> scriptCrankBatch (Some exampleAccounts) 1 = [''pdaA'']"
  by (simp add: callCrank_def selectWinner_def participatingAccounts_def toNumber_def
      useParticipantCount_def scriptCrankBatch_def getParticipants_def exampleAccounts_def
      participantA_def participantB_def recordDeposit_def)

end
